theory Spec2Isabelle
  imports Main
begin

section \<open>Byte strings and the library functions the program calls\<close>

text \<open>
  A Go \<^verbatim>\<open>string\<close> and a \<^verbatim>\<open>[]byte\<close> are both sequences of bytes; both are
  modelled as \<^typ>\<open>string\<close> (a list of 8-bit characters). The functions of this section
  are the functions of Go's standard library and of \<^verbatim>\<open>golang.org/x/text\<close> that
  \<^verbatim>\<open>wsl2backup.go\<close> calls, written out from their documented behaviour.
\<close>

definition crlf :: string where
  "crlf = [CHR 0x0D, CHR 0x0A]"

text \<open>\<^verbatim>\<open>strings.HasPrefix\<close>.\<close>

definition hasPrefix :: "string \<Rightarrow> string \<Rightarrow> bool" where
  "hasPrefix s p = (take (length p) s = p)"

text \<open>\<^verbatim>\<open>strings.Contains(s, sub)\<close>: \<open>sub\<close> occurs somewhere in \<open>s\<close>.\<close>

fun Contains :: "string \<Rightarrow> string \<Rightarrow> bool" where
  "Contains [] sub = (sub = [])"
| "Contains (c # cs) sub = (hasPrefix (c # cs) sub \<or> Contains cs sub)"

text \<open>
  \<^verbatim>\<open>strings.Split(s, sep)\<close> for a non-empty separator: \<open>s\<close> is cut at every
  occurrence of \<open>sep\<close>, found from the left and not overlapping; the result always has
  one element more than there are occurrences. The program passes the separators
  \<^verbatim>\<open>" "\<close> and \<^verbatim>\<open>"\r\n"\<close> only; the empty separator (for which Go explodes the
  string into its characters) answers the whole string here.
\<close>

function splitFrom :: "string \<Rightarrow> string \<Rightarrow> string \<Rightarrow> string list" where
  "splitFrom sep cur [] = [rev cur]"
| "splitFrom sep cur (c # cs) =
     (if sep \<noteq> [] \<and> hasPrefix (c # cs) sep
      then rev cur # splitFrom sep [] (drop (length sep) (c # cs))
      else splitFrom sep (c # cur) cs)"
  by pat_completeness auto
termination
  by (relation "measure (\<lambda>(sep, cur, s). length s)") auto

definition Split :: "string \<Rightarrow> string \<Rightarrow> string list" where
  "Split s sep = splitFrom sep [] s"

text \<open>
  \<^verbatim>\<open>strings.Replace(s, old, new, -1)\<close> for a non-empty \<open>old\<close>: every occurrence of
  \<open>old\<close>, found from the left and not overlapping, is replaced by \<open>new\<close>. The program
  passes \<^verbatim>\<open>old = "* "\<close> only; with an empty \<open>old\<close> the string is returned as it is here.
\<close>

function ReplaceAll :: "string \<Rightarrow> string \<Rightarrow> string \<Rightarrow> string" where
  "ReplaceAll [] old new = []"
| "ReplaceAll (c # cs) old new =
     (if old \<noteq> [] \<and> hasPrefix (c # cs) old
      then new @ ReplaceAll (drop (length old) (c # cs)) old new
      else c # ReplaceAll cs old new)"
  by pat_completeness auto
termination
  by (relation "measure (\<lambda>(s, old, new). length s)") auto

text \<open>
  \<^verbatim>\<open>unicode.IsSpace\<close> on the UTF-8 bytes of a string: \<open>spaceWidth s\<close> is the number of
  bytes of the white-space character \<open>s\<close> starts with, and 0 when it starts with none.
  White space is \<^verbatim>\<open>\t \n \v \f \r\<close>, the space, U+0085, U+00A0, U+1680,
  U+2000 .. U+200A, U+2028, U+2029, U+202F, U+205F and U+3000. Every multi-byte one
  starts with a UTF-8 lead byte, so none can start inside another character, and a byte
  that starts no valid character is one (non-space) character of width 1 for
  \<^verbatim>\<open>strings.Fields\<close>.
\<close>

definition asciiSpace :: "char \<Rightarrow> bool" where
  "asciiSpace c = (c \<in> {CHR 0x09, CHR 0x0A, CHR 0x0B, CHR 0x0C, CHR 0x0D, CHR 0x20})"

definition spaceWidth :: "string \<Rightarrow> nat" where
  "spaceWidth s =
     (case s of
        [] \<Rightarrow> 0
      | c # cs \<Rightarrow>
          if asciiSpace c then 1
          else if c = CHR 0xC2 \<and> (take 1 cs = [CHR 0x85] \<or> take 1 cs = [CHR 0xA0]) then 2
          else if c = CHR 0xE1 \<and> take 2 cs = [CHR 0x9A, CHR 0x80] then 3
          else if c = CHR 0xE2 \<and> take 1 cs = [CHR 0x80] \<and> length cs \<ge> 2
                  \<and> ((0x80 \<le> (of_char (cs ! 1) :: nat) \<and> (of_char (cs ! 1) :: nat) \<le> 0x8A)
                       \<or> cs ! 1 \<in> {CHR 0xA8, CHR 0xA9, CHR 0xAF}) then 3
          else if c = CHR 0xE2 \<and> take 2 cs = [CHR 0x81, CHR 0x9F] then 3
          else if c = CHR 0xE3 \<and> take 2 cs = [CHR 0x80, CHR 0x80] then 3
          else 0)"

text \<open>
  \<^verbatim>\<open>strings.Fields(s)\<close>: the maximal runs of non-space characters of \<open>s\<close>, in order.
  \<open>cur\<close> is the field being read, reversed.
\<close>

definition endField :: "string \<Rightarrow> string list" where
  "endField cur = (if cur = [] then [] else [rev cur])"

function fieldsFrom :: "string \<Rightarrow> string \<Rightarrow> string list" where
  "fieldsFrom cur [] = endField cur"
| "fieldsFrom cur (c # cs) =
     (if spaceWidth (c # cs) = 0 then fieldsFrom (c # cur) cs
      else endField cur @ fieldsFrom [] (drop (spaceWidth (c # cs) - 1) cs))"
  by pat_completeness auto
termination
  by (relation "measure (\<lambda>(cur, s). length s)") auto

definition Fields :: "string \<Rightarrow> string list" where
  "Fields s = fieldsFrom [] s"

text \<open>
  \<^verbatim>\<open>strings.EqualFold(s, t)\<close>: equality under Unicode simple case folding. Bytes below
  0x80 are compared one by one, an upper-case letter matching its lower-case one; at
  the first position where either string has a byte from 0x80 on, the rest of both
  strings is compared character by character with the fold orbits of the Unicode
  tables. That table-driven comparison is the parameter \<open>foldRest\<close>.
\<close>

definition asciiFoldEq :: "char \<Rightarrow> char \<Rightarrow> bool" where
  "asciiFoldEq sr tr =
     (let lo = min (of_char sr :: nat) (of_char tr); hi = max (of_char sr :: nat) (of_char tr)
      in lo = hi \<or> (0x41 \<le> lo \<and> lo \<le> 0x5A \<and> hi = lo + 0x20))"

fun EqualFold :: "(string \<Rightarrow> string \<Rightarrow> bool) \<Rightarrow> string \<Rightarrow> string \<Rightarrow> bool" where
  "EqualFold foldRest (sr # s) (tr # t) =
     (if (of_char sr :: nat) \<ge> 0x80 \<or> (of_char tr :: nat) \<ge> 0x80 then foldRest (sr # s) (tr # t)
      else if asciiFoldEq sr tr then EqualFold foldRest s t
      else False)"
| "EqualFold foldRest s t = (length s = length t)"


section \<open>The Text Decoder\<close>

text \<open>
  \<^verbatim>\<open>wslCmd\<close> decodes the standard output of the host tool with
  \<^verbatim>\<open>unicode.BOMOverride(unicode.UTF16(unicode.LittleEndian, unicode.IgnoreBOM).NewDecoder())\<close>
  of \<^verbatim>\<open>golang.org/x/text/encoding/unicode\<close>. Code points and 16-bit code units are
  natural numbers.
\<close>

datatype endianness = BigEndian | LittleEndian

text \<open>The replacement character U+FFFD (\<^verbatim>\<open>utf8.RuneError\<close>).\<close>

definition runeError :: nat where
  "runeError = 0xFFFD"

definition isSurrogate :: "nat \<Rightarrow> bool" where
  "isSurrogate r = (0xD800 \<le> r \<and> r < 0xE000)"

text \<open>
  \<^verbatim>\<open>utf8.EncodeRune\<close>: the UTF-8 bytes of a code point; a surrogate or a value beyond
  U+10FFFF is written as U+FFFD.
\<close>

definition encodeRune :: "nat \<Rightarrow> string" where
  "encodeRune r =
     (if r \<le> 0x7F then [char_of r]
      else if r \<le> 0x7FF then [char_of (0xC0 + r div 64), char_of (0x80 + r mod 64)]
      else if r > 0x10FFFF \<or> isSurrogate r then [CHR 0xEF, CHR 0xBF, CHR 0xBD]
      else if r \<le> 0xFFFF then
        [char_of (0xE0 + r div 4096), char_of (0x80 + (r div 64) mod 64), char_of (0x80 + r mod 64)]
      else
        [char_of (0xF0 + r div 262144), char_of (0x80 + (r div 4096) mod 64),
         char_of (0x80 + (r div 64) mod 64), char_of (0x80 + r mod 64)])"

text \<open>
  \<^verbatim>\<open>utf16.DecodeRune(r1, r2)\<close>: the code point of a surrogate pair, U+FFFD when the two
  units are not a high surrogate followed by a low one.
\<close>

definition decodeRune16 :: "nat \<Rightarrow> nat \<Rightarrow> nat" where
  "decodeRune16 r1 r2 =
     (if 0xD800 \<le> r1 \<and> r1 < 0xDC00 \<and> 0xDC00 \<le> r2 \<and> r2 < 0xE000
      then (r1 - 0xD800) * 1024 + (r2 - 0xDC00) + 0x10000
      else runeError)"

text \<open>The 16-bit code unit two bytes stand for.\<close>

definition unit16 :: "endianness \<Rightarrow> char \<Rightarrow> char \<Rightarrow> nat" where
  "unit16 e b0 b1 =
     (case e of
        BigEndian \<Rightarrow> of_char b0 * 256 + of_char b1
      | LittleEndian \<Rightarrow> of_char b1 * 256 + of_char b0)"

text \<open>
  The UTF-16 decoder on a whole input (\<^verbatim>\<open>utf16Decoder.Transform\<close> run to the end of
  the input by \<^verbatim>\<open>transform.Reader\<close>), with the policy \<^verbatim>\<open>IgnoreBOM\<close>: a byte-order mark
  is a character like any other. A surrogate followed by a unit in DC00 .. DFFF is
  decoded with that unit; any other surrogate, and a single trailing byte, becomes
  U+FFFD. The decoder has no error result.
\<close>

fun utf16Decode :: "endianness \<Rightarrow> string \<Rightarrow> string" where
  "utf16Decode e (b0 # b1 # b2 # b3 # rest) =
     (let r = unit16 e b0 b1; x = unit16 e b2 b3 in
      if isSurrogate r \<and> 0xDC00 \<le> x \<and> x \<le> 0xDFFF
      then encodeRune (decodeRune16 r x) @ utf16Decode e rest
      else encodeRune r @ utf16Decode e (b2 # b3 # rest))"
| "utf16Decode e (b0 # b1 # rest) = encodeRune (unit16 e b0 b1) @ utf16Decode e rest"
| "utf16Decode e [b] = encodeRune runeError"
| "utf16Decode e [] = []"

text \<open>
  \<^verbatim>\<open>unicode.BOMOverride(fallback)\<close>: an input that starts with the bytes FF FE is
  decoded as UTF-16 little-endian after them, one that starts with FE FF as UTF-16
  big-endian after them, one that starts with the UTF-8 mark EF BB BF is passed through
  after it, and any other input goes to the fallback decoder, here UTF-16
  little-endian.
\<close>

definition bomLE :: string where
  "bomLE = [CHR 0xFF, CHR 0xFE]"

definition bomBE :: string where
  "bomBE = [CHR 0xFE, CHR 0xFF]"

definition bomUTF8 :: string where
  "bomUTF8 = [CHR 0xEF, CHR 0xBB, CHR 0xBF]"

definition decodeText :: "string \<Rightarrow> string" where
  "decodeText src =
     (if hasPrefix src bomLE then utf16Decode LittleEndian (drop 2 src)
      else if hasPrefix src bomBE then utf16Decode BigEndian (drop 2 src)
      else if hasPrefix src bomUTF8 then drop 3 src
      else utf16Decode LittleEndian src)"


section \<open>Errors, external processes and the state of a run\<close>

text \<open>
  A Go \<^verbatim>\<open>error\<close> is either a value some package of the operating-system interface
  returned (\<^verbatim>\<open>os\<close>, \<^verbatim>\<open>os/exec\<close>, \<^verbatim>\<open>io\<close>, \<^verbatim>\<open>archive/zip\<close>) or one the program
  built with \<^verbatim>\<open>fmt.Errorf\<close>; both carry their message.
\<close>

datatype error = OSError string | Errorf string

definition errorText :: "error \<Rightarrow> string" where
  "errorText e = (case e of OSError m \<Rightarrow> m | Errorf m \<Rightarrow> m)"

text \<open>
  What one external command does, seen through the four calls the program makes on it:
  \<^verbatim>\<open>cmd.StdoutPipe\<close> fails; \<^verbatim>\<open>cmd.Start\<close> fails; \<^verbatim>\<open>io.ReadAll\<close> of the standard
  output fails; the output is read and \<^verbatim>\<open>cmd.Wait\<close> returns an error (the process
  exited with a non-zero status); or the output is read and the process exited with
  status zero.
\<close>

datatype outcome =
    PipeFails error
  | StartFails error
  | ReadFails error
  | WaitFails string error
  | Exits0 string

text \<open>The file system: the bytes stored under each path.\<close>

type_synonym fs = "string \<rightharpoonup> string"

text \<open>
  The file operations of \<^verbatim>\<open>zipFile\<close> and \<^verbatim>\<open>main\<close> that can fail, as the environment
  decides: \<^verbatim>\<open>os.Create\<close>, \<^verbatim>\<open>w.Create\<close>, \<^verbatim>\<open>os.Open\<close>, the read side of
  \<^verbatim>\<open>io.Copy\<close> (\<open>copyStops = Some k\<close>: reading the original fails after \<open>k\<close> bytes),
  \<^verbatim>\<open>w.Close\<close>, \<^verbatim>\<open>uf.Close\<close> and \<^verbatim>\<open>os.Remove\<close>. \<open>residue\<close> is what the archive file
  holds when \<^verbatim>\<open>zipFile\<close> gives up after creating it.
\<close>

record faults =
  createErr :: "error option"
  entryErr :: "error option"
  openErr :: "error option"
  copyStops :: "nat option"
  wcloseErr :: "error option"
  fcloseErr :: "error option"
  removeFails :: bool
  residue :: string

text \<open>
  The environment of a run. \<open>exec exe args w files\<close> is what running the program
  \<open>exe\<close> with the arguments \<open>args\<close> does in the state \<open>w\<close> of the host and on the
  files: its outcome, the next state of the host and the files it leaves. \<open>now\<close> is
  \<^verbatim>\<open>time.Now().Format("200601021504")\<close>, \<open>zipData\<close> the bytes \<^verbatim>\<open>archive/zip\<close> writes
  for a list of entries (name and content), \<open>foldRest\<close> the table-driven part of
  \<^verbatim>\<open>strings.EqualFold\<close>.
\<close>

record 'w env =
  exec :: "string \<Rightarrow> string list \<Rightarrow> 'w \<Rightarrow> fs \<Rightarrow> outcome \<times> 'w \<times> fs"
  now :: string
  zipData :: "(string \<times> string) list \<Rightarrow> string"
  foldRest :: "string \<Rightarrow> string \<Rightarrow> bool"
  faults :: faults

text \<open>
  The state of a run: the host, the files, the commands started so far (program and
  arguments, in order) and the lines logged so far (the format or text, and the values of
  its arguments).
\<close>

record 'w sys =
  world :: 'w
  files :: fs
  issued :: "(string \<times> string list) list"
  logged :: "(string \<times> string list) list"

text \<open>The command-line flags (the global \<^verbatim>\<open>flag\<close> variables of the program).\<close>

record flags =
  opt_distro :: string
  opt_outfile :: string
  opt_outfmt :: string
  opt_outzip :: bool
  opt_term :: bool
  opt_compact :: bool
  opt_keep :: bool

text \<open>
  The global strings of the program (\<^verbatim>\<open>wsl\<close>, \<^verbatim>\<open>wslList\<close>, \<^verbatim>\<open>compactexe\<close>), the
  newline and the double quote that its format strings contain, and \<^verbatim>\<open>log.Printf\<close>.
\<close>

definition wsl :: string where
  "wsl = ''wsl''"

definition wslList :: string where
  "wslList = ''-l -v''"

definition compactexe :: string where
  "compactexe = ''compact''"

definition nl :: string where
  "nl = [CHR 0x0A]"

definition dquote :: string where
  "dquote = [CHR 0x22]"

definition logPrintf :: "string \<Rightarrow> string list \<Rightarrow> 'w sys \<Rightarrow> 'w sys" where
  "logPrintf fmt args s = s\<lparr>logged := logged s @ [(fmt, args)]\<rparr>"

text \<open>
  \<^verbatim>\<open>exec.Command(exe, args...)\<close> with its standard output piped. When the pipe cannot be
  made or \<^verbatim>\<open>cmd.Start\<close> fails there is no process: nothing is recorded and neither the
  host nor the files change. Otherwise the command has been started and is recorded.
\<close>

definition runCommand :: "'w env \<Rightarrow> string \<Rightarrow> string list \<Rightarrow> 'w sys \<Rightarrow> outcome \<times> 'w sys" where
  "runCommand env exe args s =
     (case exec env exe args (world s) (files s) of
        (PipeFails e, w', fs') \<Rightarrow> (PipeFails e, s)
      | (StartFails e, w', fs') \<Rightarrow> (StartFails e, s)
      | (out, w', fs') \<Rightarrow>
          (out, s\<lparr>world := w', files := fs', issued := issued s @ [(exe, args)]\<rparr>))"

section \<open>The program\<close>

text \<open>
  \<^verbatim>\<open>wslCmd(flags)\<close>: the bytes returned and the error. The nil slice is the empty
  string. The output is decoded only when the process exited with status zero; reading
  the decoder to its end has no error of its own (the decoder has none, and its source
  is a byte slice in memory).
\<close>

definition wslCmd :: "'w env \<Rightarrow> string \<Rightarrow> 'w sys \<Rightarrow> (string \<times> error option) \<times> 'w sys" where
  "wslCmd env flgs s =
     (case runCommand env wsl (Split flgs '' '') s of
        (PipeFails e, s') \<Rightarrow> (([], Some e), s')
      | (StartFails e, s') \<Rightarrow> (([], Some e), s')
      | (ReadFails e, s') \<Rightarrow> (([], Some e), s')
      | (WaitFails result e, s') \<Rightarrow> ((result, Some e), s')
      | (Exits0 result, s') \<Rightarrow> ((decodeText result, None), s'))"

text \<open>The \<^verbatim>\<open>dinfo\<close> struct of \<^verbatim>\<open>distroCheck\<close>.\<close>

record dinfo =
  name :: string
  state :: string
  version :: string

text \<open>
  The body of the loop of \<^verbatim>\<open>distroCheck\<close> up to the comparison: the marker is removed
  from the line, the line is cut into fields, and the record is filled when there are
  exactly three of them.
\<close>

definition parseLine :: "string \<Rightarrow> dinfo" where
  "parseLine d =
     (let fields = Fields (ReplaceAll d ''* '' '''') in
      if length fields = 3
      then \<lparr>name = fields ! 0, state = fields ! 1, version = fields ! 2\<rparr>
      else \<lparr>name = [], state = [], version = []\<rparr>)"

text \<open>
  The loop of \<^verbatim>\<open>distroCheck\<close> over the lines after the header. Every path through the
  body of its \<^verbatim>\<open>if strings.EqualFold(...)\<close> returns, so the loop finds the first line
  whose record matches and the function then acts on that record.
\<close>

primrec firstMatch :: "(string \<Rightarrow> string \<Rightarrow> bool) \<Rightarrow> string \<Rightarrow> string list \<Rightarrow> dinfo option" where
  "firstMatch fr distro [] = None"
| "firstMatch fr distro (d # ds) =
     (let nfo = parseLine d in
      if EqualFold fr (name nfo) distro then Some nfo else firstMatch fr distro ds)"

text \<open>
  \<^verbatim>\<open>fmt.Sprintf("--terminate %s", n)\<close> and
  \<^verbatim>\<open>fmt.Sprintf("--export %s%s %s", distro, fmtarg, of)\<close>, and the formats of the lines
  \<^verbatim>\<open>distroCheck\<close> and \<^verbatim>\<open>wslExport\<close> log.
\<close>

definition terminateCmd :: "string \<Rightarrow> string" where
  "terminateCmd n = ''--terminate '' @ n"

definition terminatingMsg :: string where
  "terminatingMsg = ''Found %v distro but it is running, terminating it as requested...'' @ nl"

definition exportingMsg :: string where
  "exportingMsg = ''Exporting distribution %q for backup to file %q in %v format...'' @ nl"

definition exportCmd :: "string \<Rightarrow> string \<Rightarrow> string \<Rightarrow> string" where
  "exportCmd distro fmtarg ofile = ''--export '' @ distro @ fmtarg @ '' '' @ ofile"

definition failedMsg :: string where
  "failedMsg = ''Failed: %s'' @ nl"

definition succeededMsg :: string where
  "succeededMsg = ''Export suceeded: %s''"

definition busyError :: "string \<Rightarrow> error" where
  "busyError n =
     Errorf (''found distribution '' @ n @
       '' but it is running and -t flag not specified so it will not be terminated'')"

text \<open>
  \<^verbatim>\<open>distroCheck(distro)\<close>. The function calls itself after a terminate command, with
  no bound on the number of rounds, so it is a partial function: \<open>None\<close> is a run that
  never returns.
\<close>

partial_function (option) distroCheck ::
  "'w env \<Rightarrow> flags \<Rightarrow> string \<Rightarrow> 'w sys \<Rightarrow> ((bool \<times> error option) \<times> 'w sys) option" where
  "distroCheck env fl distro s =
     (case wslCmd env wslList s of
        ((res, Some err), s1) \<Rightarrow> Some ((False, Some err), s1)
      | ((res, None), s1) \<Rightarrow>
          (case firstMatch (foldRest env) distro (drop 1 (Split res crlf)) of
             None \<Rightarrow> Some ((False, None), s1)
           | Some nfo \<Rightarrow>
               if state nfo = ''Stopped'' then Some ((True, None), s1)
               else if opt_term fl then
                 (case wslCmd env (terminateCmd (name nfo))
                         (logPrintf terminatingMsg [name nfo] s1) of
                    ((out, Some err), s2) \<Rightarrow> Some ((False, Some err), s2)
                  | ((out, None), s2) \<Rightarrow> distroCheck env fl distro s2)
               else Some ((False, Some (busyError (name nfo))), s1)))"

text \<open>\<^verbatim>\<open>wslExport(distro, format, of)\<close>.\<close>

definition wslExport :: "'w env \<Rightarrow> string \<Rightarrow> string \<Rightarrow> string \<Rightarrow> 'w sys \<Rightarrow> error option \<times> 'w sys" where
  "wslExport env distro format ofile s =
     (let fmtarg = (if format = ''vhdx'' then '' --vhd'' else '''');
          cmd = exportCmd distro fmtarg ofile;
          s0 = logPrintf exportingMsg [distro, ofile, format] s
      in case wslCmd env cmd s0 of
           ((res, Some err), s1) \<Rightarrow> (Some err, logPrintf failedMsg [res] s1)
         | ((res, None), s1) \<Rightarrow> (None, logPrintf succeededMsg [res] s1))"


text \<open>
  \<^verbatim>\<open>zipFile(fn)\<close>. \<^verbatim>\<open>os.Create\<close> leaves an empty archive file; \<^verbatim>\<open>os.Open\<close> fails
  when the environment says so or when there is no file \<open>fn\<close>; the two results of
  \<^verbatim>\<open>io.Copy\<close> are dropped by the program, so the entry holds whatever was read before a
  read failed; after a successful \<^verbatim>\<open>w.Close\<close> the archive file holds the one entry.
\<close>

definition compressingMsg :: string where
  "compressingMsg = ''Compressing %s file to %s...'' @ nl"

definition completedMsg :: string where
  "completedMsg = ''Compression completed successfully.''"

definition noSuchFile :: "string \<Rightarrow> error" where
  "noSuchFile fn = OSError (''open '' @ fn @ '': no such file or directory'')"

definition zipFile :: "'w env \<Rightarrow> string \<Rightarrow> 'w sys \<Rightarrow> error option \<times> 'w sys" where
  "zipFile env fn s =
     (let ft = faults env;
          zof = fn @ ''.zip'';
          s0 = logPrintf compressingMsg [fn, zof] s
      in case createErr ft of
           Some err \<Rightarrow> (Some (Errorf (''error creating zip file: '' @ errorText err)), s0)
         | None \<Rightarrow>
             let s1 = s0\<lparr>files := (files s0)(zof \<mapsto> [])\<rparr>;
                 gaveUp = s1\<lparr>files := (files s1)(zof \<mapsto> residue ft)\<rparr>
             in case entryErr ft of
                  Some err \<Rightarrow> (Some (Errorf (''error creating zip directory: '' @ errorText err)), gaveUp)
                | None \<Rightarrow>
                    (case (case openErr ft of
                             Some err \<Rightarrow> Inl err
                           | None \<Rightarrow> (case files s1 fn of None \<Rightarrow> Inl (noSuchFile fn) | Some b \<Rightarrow> Inr b)) of
                       Inl err \<Rightarrow> (Some (Errorf (''error opening exported file: '' @ errorText err)), gaveUp)
                     | Inr content \<Rightarrow>
                         let copied = (case copyStops ft of None \<Rightarrow> content | Some k \<Rightarrow> take k content)
                         in case wcloseErr ft of
                              Some err \<Rightarrow> (Some err, gaveUp)
                            | None \<Rightarrow>
                                let s2 = s1\<lparr>files := (files s1)(zof \<mapsto> zipData env [(fn, copied)])\<rparr>
                                in case fcloseErr ft of
                                     Some err \<Rightarrow> (Some err, s2)
                                   | None \<Rightarrow> (None, logPrintf completedMsg [] s2)))"

text \<open>\<^verbatim>\<open>compactFile(fn)\<close>.\<close>

definition compactOK :: string where
  "compactOK = ''1 files within 1 directories were compressed''"

definition compactFile :: "'w env \<Rightarrow> string \<Rightarrow> 'w sys \<Rightarrow> error option \<times> 'w sys" where
  "compactFile env fn s =
     (case runCommand env compactexe [''/c'', fn] s of
        (PipeFails e, s') \<Rightarrow> (Some e, s')
      | (StartFails e, s') \<Rightarrow> (Some e, s')
      | (ReadFails e, s') \<Rightarrow> (Some e, s')
      | (WaitFails result e, s') \<Rightarrow> (Some e, s')
      | (Exits0 result, s') \<Rightarrow>
          if Contains result compactOK
          then (None, logPrintf completedMsg [] s')
          else (Some (Errorf (''compact failed: '' @ result)), s'))"

text \<open>\<^verbatim>\<open>outputName(format, distro)\<close>.\<close>

definition outputName :: "'w env \<Rightarrow> string \<Rightarrow> string \<Rightarrow> string" where
  "outputName env format distro = now env @ ''-'' @ distro @ ''.'' @ format"

text \<open>
  \<^verbatim>\<open>log.Fatal\<close> and \<^verbatim>\<open>log.Fatalf\<close>: the line is logged and the program exits with
  status 1. \<^verbatim>\<open>os.Remove\<close>, whose error the program drops.
\<close>

definition fatal :: "string \<Rightarrow> string list \<Rightarrow> 'w sys \<Rightarrow> (nat \<times> 'w sys) option" where
  "fatal fmt args s = Some (1, logPrintf fmt args s)"

definition osRemove :: "'w env \<Rightarrow> string \<Rightarrow> 'w sys \<Rightarrow> 'w sys" where
  "osRemove env fn s = (if removeFails (faults env) then s else s\<lparr>files := (files s)(fn := None)\<rparr>)"

definition zipFormatMsg :: string where
  "zipFormatMsg =
     ''To output in zip format, use --z flag. --f flag is to provide the export file format (vhdx or tar).''"

definition unsupportedMsg :: string where
  "unsupportedMsg =
     ''Output format %q not supported. Supported formats are '' @ dquote @ ''vhdx'' @ dquote
     @ '' (default) and '' @ dquote @ ''tar'' @ dquote @ ''.''"

definition notFoundMsg :: string where
  "notFoundMsg =
     ''Distro %q not found in WSL, check installed distribution with '' @ dquote
     @ ''%s %s'' @ dquote"

definition compactingMsg :: string where
  "compactingMsg = ''Error compacting file: %v''"

definition conflictMsg :: string where
  "conflictMsg = ''Invalid arguments: Choose --z for ZIP or --c for Compact, but not both.''"

text \<open>
  \<^verbatim>\<open>main\<close>, after \<^verbatim>\<open>flag.Parse\<close>: the exit status and the final state, \<open>None\<close> when
  \<^verbatim>\<open>distroCheck\<close> never returns.
\<close>

definition main :: "'w env \<Rightarrow> flags \<Rightarrow> 'w sys \<Rightarrow> (nat \<times> 'w sys) option" where
  "main env fl s =
     (if opt_outfmt fl \<noteq> ''vhdx'' \<and> opt_outfmt fl \<noteq> ''tar'' then
        (if opt_outfmt fl = ''zip''
         then fatal zipFormatMsg [] s
         else fatal unsupportedMsg [opt_outfmt fl] s)
      else if opt_outzip fl \<and> opt_compact fl then fatal conflictMsg [] s
      else
        (case distroCheck env fl (opt_distro fl) s of
           None \<Rightarrow> None
         | Some ((d, Some err), s1) \<Rightarrow> fatal (errorText err) [] s1
         | Some ((d, None), s1) \<Rightarrow>
             if \<not> d then
               fatal notFoundMsg [opt_distro fl, wsl, wslList] s1
             else
               let ofile = (if opt_outfile fl = [] then outputName env (opt_outfmt fl) (opt_distro fl)
                            else opt_outfile fl)
               in case wslExport env (opt_distro fl) (opt_outfmt fl) ofile s1 of
                    (Some err, s2) \<Rightarrow> fatal (errorText err) [] s2
                  | (None, s2) \<Rightarrow>
                      if opt_outzip fl then
                        (case zipFile env ofile s2 of
                           (Some err, s3) \<Rightarrow> fatal (errorText err) [] s3
                         | (None, s3) \<Rightarrow>
                             Some (0, if \<not> opt_keep fl then osRemove env ofile s3 else s3))
                      else if opt_compact fl then
                        (case compactFile env ofile s2 of
                           (Some err, s3) \<Rightarrow> fatal compactingMsg [errorText err] s3
                         | (None, s3) \<Rightarrow> Some (0, s3))
                      else Some (0, s2)))"


section \<open>The Registry Reader\<close>

text \<open>
  The records \<^verbatim>\<open>distroCheck\<close> builds from a decoded listing: the text is cut at every
  \<^verbatim>\<open>"\r\n"\<close>, the first piece (the header) is skipped, and every other piece gives one
  record. \<open>malformed d\<close> says that the line \<open>d\<close> does not give exactly three fields.
\<close>

definition records :: "string \<Rightarrow> dinfo list" where
  "records text = map parseLine (drop 1 (Split text crlf))"

definition malformed :: "string \<Rightarrow> bool" where
  "malformed d = (length (Fields (ReplaceAll d ''* '' '''')) \<noteq> 3)"

section \<open>The marker as the specification words it\<close>

text \<open>
  The specification speaks of stripping a leading marker: \<open>specStripMarker\<close> removes the
  sequence \<^verbatim>\<open>"* "\<close> when the line starts with it and nowhere else, \<open>specWellFormed\<close> says
  that the line then has exactly three fields, and \<open>specRecord\<close> is the record of those
  fields. These three follow the words of the specification, to be compared with
  \<open>parseLine\<close>, which follows the code.
\<close>

definition specStripMarker :: "string \<Rightarrow> string" where
  "specStripMarker d = (if hasPrefix d ''* '' then drop 2 d else d)"

definition specWellFormed :: "string \<Rightarrow> bool" where
  "specWellFormed d = (length (Fields (specStripMarker d)) = 3)"

definition specRecord :: "string \<Rightarrow> dinfo" where
  "specRecord d =
     (let fields = Fields (specStripMarker d) in
      \<lparr>name = fields ! 0, state = fields ! 1, version = fields ! 2\<rparr>)"

section \<open>Example runs\<close>

text \<open>
  A host with two guests, used to run the program on concrete inputs. \<open>wide\<close> writes an
  ASCII text in UTF-16 little-endian. The state of the host is whether the guest
  \<^verbatim>\<open>Ubuntu\<close> has been terminated; the list command prints a byte-order mark and the
  listing, the terminate command stops the guest, and the export command writes the
  output file.
\<close>

definition wide :: "string \<Rightarrow> string" where
  "wide s = concat (map (\<lambda>c. [c, CHR 0x00]) s)"

definition listingRunning :: string where
  "listingRunning =
     ''  NAME  STATE  VERSION'' @ crlf @ ''* Ubuntu  Running  2'' @ crlf @
     ''  kali-linux  Stopped  2'' @ crlf"

definition listingStopped :: string where
  "listingStopped =
     ''  NAME  STATE  VERSION'' @ crlf @ ''* Ubuntu  Stopped  2'' @ crlf @
     ''  kali-linux  Stopped  2'' @ crlf"

definition demoExec :: "string \<Rightarrow> string list \<Rightarrow> bool \<Rightarrow> fs \<Rightarrow> outcome \<times> bool \<times> fs" where
  "demoExec exe args stopped fs =
     (if exe = ''wsl'' \<and> args = [''-l'', ''-v'']
      then (Exits0 (bomLE @ wide (if stopped then listingStopped else listingRunning)), stopped, fs)
      else if exe = ''wsl'' \<and> take 1 args = [''--terminate''] then (Exits0 [], True, fs)
      else if exe = ''wsl'' \<and> take 1 args = [''--export'']
      then (Exits0 (wide ''done''), stopped, fs(last args \<mapsto> ''DATA''))
      else (StartFails (OSError ''executable file not found''), stopped, fs))"

definition noFaults :: faults where
  "noFaults =
     \<lparr>createErr = None, entryErr = None, openErr = None, copyStops = None,
      wcloseErr = None, fcloseErr = None, removeFails = False, residue = []\<rparr>"

definition demoEnv :: "bool env" where
  "demoEnv =
     \<lparr>exec = demoExec, now = ''202401011200'',
      zipData = (\<lambda>es. concat (map (\<lambda>(n, c). n @ '':'' @ c @ '';'') es)),
      foldRest = (\<lambda>s t. s = t), faults = noFaults\<rparr>"

definition demoSys :: "bool sys" where
  "demoSys = \<lparr>world = False, files = Map.empty, issued = [], logged = []\<rparr>"

definition demoFlags :: flags where
  "demoFlags =
     \<lparr>opt_distro = ''kali-linux'', opt_outfile = ''backup.tar'', opt_outfmt = ''tar'',
      opt_outzip = False, opt_term = False, opt_compact = False, opt_keep = False\<rparr>"

text \<open>
  A host on which every command has the same outcome and changes nothing; a run whose
  archive compression is selected; and an environment in which reading the exported file
  fails after two bytes.
\<close>

definition constExec :: "outcome \<Rightarrow> string \<Rightarrow> string list \<Rightarrow> bool \<Rightarrow> fs \<Rightarrow> outcome \<times> bool \<times> fs" where
  "constExec out exe args w fs = (out, w, fs)"

definition zipFlags :: flags where
  "zipFlags = demoFlags\<lparr>opt_outzip := True\<rparr>"

definition readFailEnv :: "bool env" where
  "readFailEnv = demoEnv\<lparr>faults := noFaults\<lparr>copyStops := Some 2\<rparr>\<rparr>"

section \<open>Properties\<close>

subsection \<open>Facts about the library functions and the fixtures\<close>

lemma hasPrefix_iff: "hasPrefix s p \<longleftrightarrow> (\<exists>post. s = p @ post)"
proof
  assume "hasPrefix s p"
  then have "s = p @ drop (length p) s"
    unfolding hasPrefix_def by (metis append_take_drop_id)
  then show "\<exists>post. s = p @ post" ..
next
  assume "\<exists>post. s = p @ post"
  then show "hasPrefix s p" by (auto simp: hasPrefix_def)
qed

lemma EqualFold_Nil: "EqualFold fr [] t = (t = [])"
  by (cases t) auto

lemma firstMatch_find:
  "firstMatch fr distro ds = List.find (\<lambda>r. EqualFold fr (name r) distro) (map parseLine ds)"
  by (induction ds) (simp_all add: Let_def)

lemma Split_wslList: "Split wslList '' '' = [''-l'', ''-v'']"
  by (simp add: Split_def wslList_def hasPrefix_def)

lemma wslCmd_Exits0:
  "exec env wsl (Split flgs '' '') (world s) (files s) = (Exits0 raw, w', fs') \<Longrightarrow>
   wslCmd env flgs s =
     ((decodeText raw, None),
      s\<lparr>world := w', files := fs', issued := issued s @ [(wsl, Split flgs '' '')]\<rparr>)"
  by (simp add: wslCmd_def runCommand_def)

lemma wslCmd_list:
  "exec env wsl [''-l'', ''-v''] (world s) (files s) = (Exits0 raw, w', fs') \<Longrightarrow>
   wslCmd env wslList s =
     ((decodeText raw, None),
      s\<lparr>world := w', files := fs', issued := issued s @ [(wsl, [''-l'', ''-v''])]\<rparr>)"
  using wslCmd_Exits0[of env wslList s raw w' fs'] by (simp add: Split_wslList)

lemma decode_listingRunning: "decodeText (bomLE @ wide listingRunning) = listingRunning"
  by (simp add: decodeText_def hasPrefix_def bomLE_def wide_def listingRunning_def crlf_def
      unit16_def encodeRune_def isSurrogate_def char_of_eq_iff)

lemma decode_listingStopped: "decodeText (bomLE @ wide listingStopped) = listingStopped"
  by (simp add: decodeText_def hasPrefix_def bomLE_def wide_def listingStopped_def crlf_def
      unit16_def encodeRune_def isSurrogate_def char_of_eq_iff)

lemma records_listingRunning:
  "records listingRunning =
     [\<lparr>name = ''Ubuntu'', state = ''Running'', version = ''2''\<rparr>,
      \<lparr>name = ''kali-linux'', state = ''Stopped'', version = ''2''\<rparr>,
      \<lparr>name = [], state = [], version = []\<rparr>]"
  by (simp add: records_def listingRunning_def crlf_def Split_def hasPrefix_def parseLine_def
      Fields_def spaceWidth_def asciiSpace_def endField_def)

lemma records_listingStopped:
  "records listingStopped =
     [\<lparr>name = ''Ubuntu'', state = ''Stopped'', version = ''2''\<rparr>,
      \<lparr>name = ''kali-linux'', state = ''Stopped'', version = ''2''\<rparr>,
      \<lparr>name = [], state = [], version = []\<rparr>]"
  by (simp add: records_def listingStopped_def crlf_def Split_def hasPrefix_def parseLine_def
      Fields_def spaceWidth_def asciiSpace_def endField_def)

subsection \<open>The Guest Availability Resolver\<close>

text \<open>
  C1. With force-stop disabled, whenever the list command succeeds \<^verbatim>\<open>distroCheck\<close>
  returns after that one command, and its result is decided by the first record of the
  listing whose name equals the target under \<^verbatim>\<open>strings.EqualFold\<close>: ready and no error
  when the state of that record is literally \<^verbatim>\<open>Stopped\<close>; not ready and the error
  naming the guest when its state is anything else; not ready and no error when no record
  matches. The only command started is the list command, so no terminate command is.
\<close>

theorem distroCheck_without_force_stop:
  assumes "exec env wsl [''-l'', ''-v''] (world s) (files s) = (Exits0 raw, w', fs')"
    and "\<not> opt_term fl"
  shows "distroCheck env fl distro s =
           Some ((case List.find (\<lambda>r. EqualFold (foldRest env) (name r) distro)
                         (records (decodeText raw)) of
                    None \<Rightarrow> (False, None)
                  | Some r \<Rightarrow>
                      if state r = ''Stopped'' then (True, None)
                      else (False, Some (busyError (name r)))),
                 s\<lparr>world := w', files := fs', issued := issued s @ [(wsl, [''-l'', ''-v''])]\<rparr>)"
  using assms(2)
  by (subst distroCheck.simps)
     (simp add: wslCmd_list[OF assms(1)] firstMatch_find records_def split: option.splits)


lemma demo_list:
  "exec demoEnv wsl [''-l'', ''-v''] (world demoSys) (files demoSys)
     = (Exits0 (bomLE @ wide listingRunning), False, Map.empty)"
  by (simp add: demoEnv_def demoExec_def demoSys_def wsl_def)

lemma foldRest_demoEnv: "foldRest demoEnv = (\<lambda>s t. s = t)"
  by (simp add: demoEnv_def)

lemma demoSys_listed:
  "demoSys\<lparr>world := False, files := Map.empty, issued := issued demoSys @ [(wsl, [''-l'', ''-v''])]\<rparr>
     = demoSys\<lparr>issued := [(''wsl'', [''-l'', ''-v''])]\<rparr>"
  by (simp add: demoSys_def wsl_def)

theorem distroCheck_without_force_stop_witness:
  "distroCheck demoEnv demoFlags ''KALI-LINUX'' demoSys
     = Some ((True, None), demoSys\<lparr>issued := [(''wsl'', [''-l'', ''-v''])]\<rparr>)
   \<and> distroCheck demoEnv demoFlags ''ubuntu'' demoSys
     = Some ((False, Some (busyError ''Ubuntu'')), demoSys\<lparr>issued := [(''wsl'', [''-l'', ''-v''])]\<rparr>)
   \<and> distroCheck demoEnv demoFlags ''debian'' demoSys
     = Some ((False, None), demoSys\<lparr>issued := [(''wsl'', [''-l'', ''-v''])]\<rparr>)"
proof -
  have t: "\<not> opt_term demoFlags" by (simp add: demoFlags_def)
  note r = distroCheck_without_force_stop [OF demo_list t]
  show ?thesis
    unfolding r demoSys_listed decode_listingRunning records_listingRunning foldRest_demoEnv
    by (simp add: asciiFoldEq_def)
qed

subsection \<open>Force-stop and the arguments of the terminate command\<close>

lemma spaceWidth_0_not_space: "spaceWidth (c # cs) = 0 \<Longrightarrow> \<not> asciiSpace c"
  by (simp add: spaceWidth_def split: if_splits)

lemma endField_no_space:
  "f \<in> set (endField cur) \<Longrightarrow> list_all (\<lambda>c. \<not> asciiSpace c) cur \<Longrightarrow> list_all (\<lambda>c. \<not> asciiSpace c) f"
  by (cases "cur = []") (simp_all add: endField_def)

lemma fieldsFrom_no_space:
  "f \<in> set (fieldsFrom cur s) \<Longrightarrow> list_all (\<lambda>c. \<not> asciiSpace c) cur \<Longrightarrow> list_all (\<lambda>c. \<not> asciiSpace c) f"
proof (induction cur s rule: fieldsFrom.induct)
  case (1 cur)
  then show ?case by (simp add: endField_no_space)
next
  case (2 cur c cs)
  show ?case
  proof (cases "spaceWidth (c # cs) = 0")
    case True
    then have "f \<in> set (fieldsFrom (c # cur) cs)" using 2(3) by simp
    moreover have "list_all (\<lambda>c. \<not> asciiSpace c) (c # cur)"
      using True 2(4) by (simp add: spaceWidth_0_not_space)
    ultimately show ?thesis using 2(1)[OF True] by blast
  next
    case False
    then have "f \<in> set (endField cur) \<or> f \<in> set (fieldsFrom [] (drop (spaceWidth (c # cs) - 1) cs))"
      using 2(3) by simp
    then show ?thesis
    proof
      assume "f \<in> set (endField cur)"
      then show ?thesis using 2(4) by (rule endField_no_space)
    next
      assume "f \<in> set (fieldsFrom [] (drop (spaceWidth (c # cs) - 1) cs))"
      then show ?thesis using 2(2)[OF False] by simp
    qed
  qed
qed

lemma Fields_no_space: "f \<in> set (Fields s) \<Longrightarrow> CHR '' '' \<notin> set f"
proof -
  assume "f \<in> set (Fields s)"
  then have "list_all (\<lambda>c. \<not> asciiSpace c) f"
    unfolding Fields_def by (rule fieldsFrom_no_space) simp
  then show ?thesis by (auto simp: list_all_iff asciiSpace_def)
qed

lemma name_parseLine_no_space: "CHR '' '' \<notin> set (name (parseLine d))"
proof (cases "length (Fields (ReplaceAll d ''* '' '''')) = 3")
  case True
  then have "Fields (ReplaceAll d ''* '' '''') ! 0 \<in> set (Fields (ReplaceAll d ''* '' ''''))"
    by (intro nth_mem) simp
  from Fields_no_space[OF this] show ?thesis using True by (simp add: parseLine_def Let_def)
next
  case False
  then show ?thesis by (simp add: parseLine_def)
qed

lemma hasPrefix_space: "hasPrefix (c # cs) '' '' = (c = CHR '' '')"
  by (simp add: hasPrefix_def)

lemma splitFrom_no_sep: "CHR '' '' \<notin> set n \<Longrightarrow> splitFrom '' '' cur n = [rev cur @ n]"
proof (induction n arbitrary: cur)
  case Nil
  then show ?case by simp
next
  case (Cons a n)
  then have "a \<noteq> CHR '' ''" by auto
  then have "splitFrom '' '' cur (a # n) = splitFrom '' '' (a # cur) n"
    by (simp add: hasPrefix_space)
  then show ?case using Cons by simp
qed

lemma splitFrom_prefix:
  "CHR '' '' \<notin> set p \<Longrightarrow> CHR '' '' \<notin> set n \<Longrightarrow>
   splitFrom '' '' cur (p @ CHR '' '' # n) = [rev cur @ p, n]"
proof (induction p arbitrary: cur)
  case Nil
  then show ?case by (simp add: hasPrefix_space splitFrom_no_sep)
next
  case (Cons a p)
  then have "a \<noteq> CHR '' ''" by auto
  then have "splitFrom '' '' cur ((a # p) @ CHR '' '' # n) = splitFrom '' '' (a # cur) (p @ CHR '' '' # n)"
    by (simp add: hasPrefix_space)
  then show ?case using Cons by simp
qed

lemma Split_terminate:
  "CHR '' '' \<notin> set n \<Longrightarrow> Split (terminateCmd n) '' '' = [''--terminate'', n]"
  using splitFrom_prefix[of "''--terminate''" n "[]"] by (simp add: Split_def terminateCmd_def)

lemma find_records_parseLine:
  "List.find P (records text) = Some r \<Longrightarrow> \<exists>d. r = parseLine d"
  by (auto simp: records_def find_Some_iff)

lemma terminate_args:
  assumes "List.find P (records text) = Some r"
  shows "Split (terminateCmd (name r)) '' '' = [''--terminate'', name r]"
proof -
  from find_records_parseLine[OF assms] obtain d where "r = parseLine d" ..
  then show ?thesis by (simp add: Split_terminate name_parseLine_no_space)
qed

text \<open>
  C2. With force-stop enabled, when the first record that matches the target is not
  \<^verbatim>\<open>Stopped\<close>, the terminate command for that record's name succeeds and the second
  listing reports the guest as \<^verbatim>\<open>Stopped\<close>, \<^verbatim>\<open>distroCheck\<close> returns ready with no
  error after exactly three commands: the list command, one terminate command for the
  guest, and the list command once more. The second reading is \<^verbatim>\<open>distroCheck\<close> called
  again on the same target, in the state the terminate command left.
\<close>

theorem distroCheck_force_stop_once:
  assumes l1: "exec env wsl [''-l'', ''-v''] (world s) (files s) = (Exits0 raw1, w1, f1)"
    and m1: "List.find (\<lambda>r. EqualFold (foldRest env) (name r) distro) (records (decodeText raw1)) = Some nfo"
    and running: "state nfo \<noteq> ''Stopped''"
    and force: "opt_term fl"
    and k: "exec env wsl [''--terminate'', name nfo] w1 f1 = (Exits0 rawT, w2, f2)"
    and l2: "exec env wsl [''-l'', ''-v''] w2 f2 = (Exits0 raw2, w3, f3)"
    and m2: "List.find (\<lambda>r. EqualFold (foldRest env) (name r) distro) (records (decodeText raw2)) = Some nfo2"
    and stopped: "state nfo2 = ''Stopped''"
  shows "distroCheck env fl distro s =
           distroCheck env fl distro
             (s\<lparr>world := w2, files := f2,
                issued := issued s @ [(wsl, [''-l'', ''-v'']), (wsl, [''--terminate'', name nfo])],
                logged := logged s @
                  [(terminatingMsg, [name nfo])]\<rparr>)
         \<and> distroCheck env fl distro s =
           Some ((True, None),
             s\<lparr>world := w3, files := f3,
               issued := issued s @ [(wsl, [''-l'', ''-v'']), (wsl, [''--terminate'', name nfo]),
                                      (wsl, [''-l'', ''-v''])],
               logged := logged s @
                 [(terminatingMsg, [name nfo])]\<rparr>)"
proof -
  let ?s1 = "s\<lparr>world := w1, files := f1, issued := issued s @ [(wsl, [''-l'', ''-v''])]\<rparr>"
  let ?s1' = "logPrintf terminatingMsg [name nfo] ?s1"
  let ?s2 = "s\<lparr>world := w2, files := f2,
                issued := issued s @ [(wsl, [''-l'', ''-v'']), (wsl, [''--terminate'', name nfo])],
                logged := logged s @
                  [(terminatingMsg, [name nfo])]\<rparr>"
  have c1: "wslCmd env wslList s = ((decodeText raw1, None), ?s1)"
    using wslCmd_Exits0[of env wslList s raw1 w1 f1] l1 by (simp add: Split_wslList)
  have ta: "Split (terminateCmd (name nfo)) '' '' = [''--terminate'', name nfo]"
    by (rule terminate_args[OF m1])
  have c2: "wslCmd env (terminateCmd (name nfo)) ?s1' = ((decodeText rawT, None), ?s2)"
    using wslCmd_Exits0[of env "terminateCmd (name nfo)" ?s1' rawT w2 f2] k
    by (simp add: ta logPrintf_def)
  have c3: "wslCmd env wslList ?s2 = ((decodeText raw2, None),
      ?s2\<lparr>world := w3, files := f3, issued := issued ?s2 @ [(wsl, [''-l'', ''-v''])]\<rparr>)"
    using wslCmd_Exits0[of env wslList ?s2 raw2 w3 f3] l2 by (simp add: Split_wslList)
  have step: "distroCheck env fl distro s = distroCheck env fl distro ?s2"
    using m1 running force c2
    by (subst distroCheck.simps) (simp add: c1 firstMatch_find records_def)
  have last: "distroCheck env fl distro ?s2 = Some ((True, None),
      ?s2\<lparr>world := w3, files := f3, issued := issued ?s2 @ [(wsl, [''-l'', ''-v''])]\<rparr>)"
    using m2 stopped
    by (subst distroCheck.simps) (simp add: c3 firstMatch_find records_def)
  show ?thesis using step last by simp
qed

lemma demo_terminate:
  "exec demoEnv wsl [''--terminate'', ''Ubuntu''] False Map.empty = (Exits0 [], True, Map.empty)"
  by (simp add: demoEnv_def demoExec_def wsl_def)

lemma demo_list_again:
  "exec demoEnv wsl [''-l'', ''-v''] True Map.empty
     = (Exits0 (bomLE @ wide listingStopped), True, Map.empty)"
  by (simp add: demoEnv_def demoExec_def wsl_def)

theorem distroCheck_force_stop_once_witness:
  "distroCheck demoEnv (demoFlags\<lparr>opt_term := True\<rparr>) ''ubuntu'' demoSys =
     Some ((True, None),
       \<lparr>world = True, files = Map.empty,
        issued = [(''wsl'', [''-l'', ''-v'']), (''wsl'', [''--terminate'', ''Ubuntu'']),
                  (''wsl'', [''-l'', ''-v''])],
        logged = [(terminatingMsg, [''Ubuntu''])]\<rparr>)"
proof -
  let ?r1 = "\<lparr>name = ''Ubuntu'', state = ''Running'', version = ''2''\<rparr>"
  let ?r2 = "\<lparr>name = ''Ubuntu'', state = ''Stopped'', version = ''2''\<rparr>"
  have m1: "List.find (\<lambda>r. EqualFold (foldRest demoEnv) (name r) ''ubuntu'')
              (records (decodeText (bomLE @ wide listingRunning))) = Some ?r1"
    unfolding decode_listingRunning records_listingRunning foldRest_demoEnv
    by (simp add: asciiFoldEq_def)
  have m2: "List.find (\<lambda>r. EqualFold (foldRest demoEnv) (name r) ''ubuntu'')
              (records (decodeText (bomLE @ wide listingStopped))) = Some ?r2"
    unfolding decode_listingStopped records_listingStopped foldRest_demoEnv
    by (simp add: asciiFoldEq_def)
  have w: "world demoSys = False" "files demoSys = Map.empty"
    by (simp_all add: demoSys_def)
  have k: "exec demoEnv wsl [''--terminate'', name ?r1] False Map.empty = (Exits0 [], True, Map.empty)"
    using demo_terminate by simp
  have "distroCheck demoEnv (demoFlags\<lparr>opt_term := True\<rparr>) ''ubuntu'' demoSys =
      Some ((True, None),
        demoSys\<lparr>world := True, files := Map.empty,
          issued := issued demoSys @ [(wsl, [''-l'', ''-v'']), (wsl, [''--terminate'', name ?r1]),
                                      (wsl, [''-l'', ''-v''])],
          logged := logged demoSys @ [(terminatingMsg, [name ?r1])]\<rparr>)"
    using distroCheck_force_stop_once [of demoEnv demoSys _ False Map.empty "''ubuntu''" ?r1
        "demoFlags\<lparr>opt_term := True\<rparr>" "[]" True Map.empty _ True Map.empty ?r2,
        OF demo_list m1 _ _ k demo_list_again m2, THEN conjunct2]
    by simp
  then show ?thesis by (simp add: demoSys_def wsl_def)
qed

subsection \<open>The Registry Reader\<close>

lemma not_hasPrefix_crlf_append:
  assumes "\<not> hasPrefix (a # x) crlf"
  shows "\<not> hasPrefix (a # x @ crlf @ rest) crlf"
proof (cases x)
  case Nil
  then show ?thesis by (simp add: hasPrefix_def crlf_def)
next
  case (Cons b x')
  then show ?thesis using assms by (simp add: hasPrefix_def crlf_def)
qed

lemma splitFrom_line:
  "\<not> Contains x crlf \<Longrightarrow>
   splitFrom crlf cur (x @ crlf @ rest) = (rev cur @ x) # splitFrom crlf [] rest"
proof (induction x arbitrary: cur)
  case Nil
  then show ?case by (simp add: hasPrefix_def crlf_def)
next
  case (Cons a x)
  then have n: "\<not> hasPrefix (a # x) crlf" and c: "\<not> Contains x crlf" by simp_all
  have "splitFrom crlf cur ((a # x) @ crlf @ rest) = splitFrom crlf (a # cur) (x @ crlf @ rest)"
    using not_hasPrefix_crlf_append[OF n, of rest] by simp
  then show ?case using Cons.IH[OF c] by simp
qed

lemma splitFrom_last_line:
  "\<not> Contains x crlf \<Longrightarrow> splitFrom crlf cur x = [rev cur @ x]"
proof (induction x arbitrary: cur)
  case Nil
  then show ?case by simp
next
  case (Cons a x)
  then have n: "\<not> hasPrefix (a # x) crlf" and c: "\<not> Contains x crlf" by simp_all
  have "splitFrom crlf cur (a # x) = splitFrom crlf (a # cur) x"
    using n by simp
  then show ?case using Cons.IH[OF c] by simp
qed

text \<open>
  A text written as a header and lines, each line after a \<^verbatim>\<open>"\r\n"\<close>, is cut back into
  that header and those lines when none of them contains \<^verbatim>\<open>"\r\n"\<close>.
\<close>

lemma Split_listing:
  "list_all (\<lambda>l. \<not> Contains l crlf) (header # ls) \<Longrightarrow>
   Split (header @ concat (map (\<lambda>l. crlf @ l) ls)) crlf = header # ls"
proof (induction ls arbitrary: header)
  case Nil
  then show ?case by (simp add: Split_def splitFrom_last_line)
next
  case (Cons l ls)
  then have h: "\<not> Contains header crlf" and r: "list_all (\<lambda>l. \<not> Contains l crlf) (l # ls)"
    by simp_all
  have "Split (header @ concat (map (\<lambda>l. crlf @ l) (l # ls))) crlf
      = header # Split (l @ concat (map (\<lambda>l. crlf @ l) ls)) crlf"
    using splitFrom_line[OF h, of "[]" "l @ concat (map (\<lambda>l. crlf @ l) ls)"]
    by (simp add: Split_def)
  then show ?case using Cons.IH[OF r] by simp
qed

lemma Contains_set: "Contains s sub \<Longrightarrow> set sub \<subseteq> set s"
proof (induction s)
  case Nil
  then show ?case by simp
next
  case (Cons c cs)
  from Cons.prems have "hasPrefix (c # cs) sub \<or> Contains cs sub" by simp
  then show ?case
  proof
    assume "hasPrefix (c # cs) sub"
    then have "sub = take (length sub) (c # cs)" by (simp add: hasPrefix_def)
    then have "set sub \<subseteq> set (c # cs)" using set_take_subset[of "length sub" "c # cs"] by simp
    then show ?thesis .
  next
    assume "Contains cs sub"
    then show ?thesis using Cons.IH by auto
  qed
qed

lemma name_parseLine_no_marker: "\<not> Contains (name (parseLine d)) ''* ''"
proof
  assume "Contains (name (parseLine d)) ''* ''"
  then have "CHR '' '' \<in> set (name (parseLine d))" using Contains_set by fastforce
  then show False using name_parseLine_no_space by simp
qed

lemma parseLine_cases:
  "parseLine d =
     (if malformed d then \<lparr>name = [], state = [], version = []\<rparr>
      else \<lparr>name = Fields (ReplaceAll d ''* '' '''') ! 0,
            state = Fields (ReplaceAll d ''* '' '''') ! 1,
            version = Fields (ReplaceAll d ''* '' '''') ! 2\<rparr>)"
  by (simp add: parseLine_def malformed_def Let_def)

text \<open>
  C3, as amended. When cutting the decoded listing at every \<^verbatim>\<open>"\r\n"\<close> gives a header
  followed by the lines \<open>ls\<close> (as it does for a text written as a header and lines that
  contain no \<^verbatim>\<open>"\r\n"\<close>, by \<open>Split_listing\<close>), the Registry Reader gives exactly one
  record per line of \<open>ls\<close>, in the order of the lines. The record of a line holds the
  three fields the line has after every occurrence of \<^verbatim>\<open>"* "\<close> is removed from it,
  when there are exactly three, and is all-empty otherwise; in both cases its name does
  not contain the marker.
\<close>

theorem records_of_listing:
  assumes "Split text crlf = header # ls"
  shows "length (records text) = length ls \<and>
         (\<forall>i < length ls.
            records text ! i =
              (if length (Fields (ReplaceAll (ls ! i) ''* '' '''')) = 3
               then \<lparr>name = Fields (ReplaceAll (ls ! i) ''* '' '''') ! 0,
                     state = Fields (ReplaceAll (ls ! i) ''* '' '''') ! 1,
                     version = Fields (ReplaceAll (ls ! i) ''* '' '''') ! 2\<rparr>
               else \<lparr>name = [], state = [], version = []\<rparr>)
            \<and> \<not> Contains (name (records text ! i)) ''* '')"
proof -
  have r: "records text = map parseLine ls"
    by (simp add: records_def assms)
  show ?thesis
    unfolding r by (simp add: name_parseLine_no_marker) (simp add: parseLine_def Let_def)
qed

theorem records_of_listing_witness:
  "Split listingRunning crlf =
     ''  NAME  STATE  VERSION'' # [''* Ubuntu  Running  2'', ''  kali-linux  Stopped  2'', []] \<and>
   length (records listingRunning) = 3 \<and>
   records listingRunning ! 0 = \<lparr>name = ''Ubuntu'', state = ''Running'', version = ''2''\<rparr> \<and>
   records listingRunning ! 1 = \<lparr>name = ''kali-linux'', state = ''Stopped'', version = ''2''\<rparr> \<and>
   records listingRunning ! 2 = \<lparr>name = [], state = [], version = []\<rparr>"
proof -
  let ?l1 = "''* Ubuntu  Running  2''" and ?l2 = "''  kali-linux  Stopped  2''"
  have sp: "Split listingRunning crlf = ''  NAME  STATE  VERSION'' # [?l1, ?l2, []]"
    by (simp add: listingRunning_def crlf_def Split_def hasPrefix_def)
  have f1: "Fields (ReplaceAll ?l1 ''* '' '''') = [''Ubuntu'', ''Running'', ''2'']"
    by (simp add: Fields_def hasPrefix_def spaceWidth_def asciiSpace_def endField_def)
  have f2: "Fields (ReplaceAll ?l2 ''* '' '''') = [''kali-linux'', ''Stopped'', ''2'']"
    by (simp add: Fields_def hasPrefix_def spaceWidth_def asciiSpace_def endField_def)
  have f3: "Fields (ReplaceAll [] ''* '' '''') = []"
    by (simp add: Fields_def endField_def)
  note t = records_of_listing [OF sp]
  note u = t [THEN conjunct2, rule_format, THEN conjunct1]
  have len: "length (records listingRunning) = 3"
    using t [THEN conjunct1] by simp
  have r0: "records listingRunning ! 0 = \<lparr>name = ''Ubuntu'', state = ''Running'', version = ''2''\<rparr>"
    using u [of 0] unfolding nth_Cons_0 f1 by simp
  have r1: "records listingRunning ! 1 = \<lparr>name = ''kali-linux'', state = ''Stopped'', version = ''2''\<rparr>"
    using u [of 1] unfolding One_nat_def nth_Cons_Suc nth_Cons_0 f2 by simp
  have r2: "records listingRunning ! 2 = \<lparr>name = [], state = [], version = []\<rparr>"
    using u [of 2] unfolding numeral_2_eq_2 nth_Cons_Suc nth_Cons_0 f3 by simp
  show ?thesis using sp len r0 r1 r2 by blast
qed

text \<open>
  C3 as the specification words it, with only a leading marker stripped, fails on the
  code: the listing below is a header and one line that has exactly three fields after a
  leading marker is stripped (it has none), and the record the specification gives it
  holds those fields, while the code removes the \<^verbatim>\<open>"* "\<close> inside the line, is left with two
  fields and gives the all-empty record.
\<close>

theorem leading_marker_counterexample:
  "Split (''NAME STATE VERSION'' @ crlf @ ''Ubuntu* Running 2'') crlf
     = [''NAME STATE VERSION'', ''Ubuntu* Running 2'']
   \<and> specWellFormed ''Ubuntu* Running 2''
   \<and> specRecord ''Ubuntu* Running 2'' = \<lparr>name = ''Ubuntu*'', state = ''Running'', version = ''2''\<rparr>
   \<and> records (''NAME STATE VERSION'' @ crlf @ ''Ubuntu* Running 2'')
     = [\<lparr>name = [], state = [], version = []\<rparr>]"
  by (simp add: crlf_def Split_def hasPrefix_def specWellFormed_def specStripMarker_def specRecord_def
      records_def parseLine_def Fields_def spaceWidth_def asciiSpace_def endField_def)

subsection \<open>Malformed lines\<close>

lemma EqualFold_Nil_right: "EqualFold fr s [] = (s = [])"
  by (cases s) auto

lemma endField_nonempty: "f \<in> set (endField cur) \<Longrightarrow> f \<noteq> []"
  by (cases "cur = []") (simp_all add: endField_def)

lemma fieldsFrom_nonempty: "f \<in> set (fieldsFrom cur s) \<Longrightarrow> f \<noteq> []"
proof (induction cur s rule: fieldsFrom.induct)
  case (1 cur)
  then show ?case by (simp add: endField_nonempty)
next
  case (2 cur c cs)
  show ?case
  proof (cases "spaceWidth (c # cs) = 0")
    case True
    then show ?thesis using 2(1) 2(3) by simp
  next
    case False
    then have "f \<in> set (endField cur) \<or> f \<in> set (fieldsFrom [] (drop (spaceWidth (c # cs) - 1) cs))"
      using 2(3) by simp
    then show ?thesis using 2(2)[OF False] endField_nonempty by blast
  qed
qed

lemma Fields_nonempty: "f \<in> set (Fields s) \<Longrightarrow> f \<noteq> []"
  unfolding Fields_def by (rule fieldsFrom_nonempty)

lemma name_parseLine_nonempty: "\<not> malformed d \<Longrightarrow> name (parseLine d) \<noteq> []"
proof -
  assume w: "\<not> malformed d"
  then have "Fields (ReplaceAll d ''* '' '''') ! 0 \<in> set (Fields (ReplaceAll d ''* '' ''''))"
    by (intro nth_mem) (simp add: malformed_def)
  from Fields_nonempty[OF this] show ?thesis using w by (simp add: parseLine_cases)
qed

lemma parseLine_malformed:
  "malformed d \<Longrightarrow> parseLine d = \<lparr>name = [], state = [], version = []\<rparr>"
  by (simp add: parseLine_cases)

lemma firstMatch_skips_malformed:
  "target \<noteq> [] \<Longrightarrow>
   firstMatch fr target ds = firstMatch fr target (filter (\<lambda>d. \<not> malformed d) ds)"
  by (induction ds) (simp_all add: Let_def parseLine_malformed EqualFold_Nil)

lemma firstMatch_empty_target:
  "list_ex malformed ds \<Longrightarrow>
   firstMatch fr [] ds = Some \<lparr>name = [], state = [], version = []\<rparr>"
proof (induction ds)
  case Nil
  then show ?case by simp
next
  case (Cons d ds)
  show ?case
  proof (cases "malformed d")
    case True
    then show ?thesis by (simp add: Let_def parseLine_malformed)
  next
    case False
    then have "\<not> EqualFold fr (name (parseLine d)) []"
      by (simp add: EqualFold_Nil_right name_parseLine_nonempty)
    then show ?thesis using Cons False by (simp add: Let_def)
  qed
qed

text \<open>
  C10. A malformed line gives the record with the empty name, and that record matches a
  target exactly when the target is empty. So for a target that is not empty the scan
  finds what it finds with every malformed line left out. For the empty target, as soon
  as one line after the header is malformed the scan finds the all-empty record (every
  well-formed line has a name that is not empty); its state is not \<^verbatim>\<open>Stopped\<close>, and
  with force-stop disabled \<^verbatim>\<open>distroCheck\<close> answers that the guest with the empty name
  is running.
\<close>

theorem malformed_line_matches_only_empty_target:
  "(malformed d \<longrightarrow>
      parseLine d = \<lparr>name = [], state = [], version = []\<rparr> \<and>
      (EqualFold fr (name (parseLine d)) target \<longleftrightarrow> target = []))
   \<and> (target \<noteq> [] \<longrightarrow>
      firstMatch fr target ds = firstMatch fr target (filter (\<lambda>d. \<not> malformed d) ds))
   \<and> (list_ex malformed ds \<longrightarrow>
      firstMatch fr [] ds = Some \<lparr>name = [], state = [], version = []\<rparr> \<and>
      state \<lparr>name = [], state = [], version = []\<rparr> \<noteq> ''Stopped'')
   \<and> (exec env wsl [''-l'', ''-v''] (world s) (files s) = (Exits0 raw, w', fs') \<and>
      list_ex malformed (drop 1 (Split (decodeText raw) crlf)) \<and> \<not> opt_term fl \<longrightarrow>
      distroCheck env fl [] s =
        Some ((False, Some (busyError [])),
              s\<lparr>world := w', files := fs', issued := issued s @ [(wsl, [''-l'', ''-v''])]\<rparr>))"
proof (intro conjI impI)
  assume "malformed d"
  then show "parseLine d = \<lparr>name = [], state = [], version = []\<rparr>"
    by (rule parseLine_malformed)
next
  assume "malformed d"
  then show "EqualFold fr (name (parseLine d)) target \<longleftrightarrow> target = []"
    by (simp add: parseLine_malformed EqualFold_Nil)
next
  assume "target \<noteq> []"
  then show "firstMatch fr target ds = firstMatch fr target (filter (\<lambda>d. \<not> malformed d) ds)"
    by (rule firstMatch_skips_malformed)
next
  assume "list_ex malformed ds"
  then show "firstMatch fr [] ds = Some \<lparr>name = [], state = [], version = []\<rparr>"
    by (rule firstMatch_empty_target)
next
  show "state \<lparr>name = [], state = [], version = []\<rparr> \<noteq> ''Stopped''" by simp
next
  assume a: "exec env wsl [''-l'', ''-v''] (world s) (files s) = (Exits0 raw, w', fs') \<and>
      list_ex malformed (drop 1 (Split (decodeText raw) crlf)) \<and> \<not> opt_term fl"
  then have c: "wslCmd env wslList s = ((decodeText raw, None),
      s\<lparr>world := w', files := fs', issued := issued s @ [(wsl, [''-l'', ''-v''])]\<rparr>)"
    by (simp add: wslCmd_list)
  from a have m: "firstMatch (foldRest env) [] (drop 1 (Split (decodeText raw) crlf))
      = Some \<lparr>name = [], state = [], version = []\<rparr>"
    by (simp add: firstMatch_empty_target)
  show "distroCheck env fl [] s =
        Some ((False, Some (busyError [])),
              s\<lparr>world := w', files := fs', issued := issued s @ [(wsl, [''-l'', ''-v''])]\<rparr>)"
    using a m by (subst distroCheck.simps) (simp add: c)
qed

theorem malformed_line_matches_only_empty_target_witness:
  "malformed ''Ubuntu Running''
   \<and> parseLine ''Ubuntu Running'' = \<lparr>name = [], state = [], version = []\<rparr>
   \<and> \<not> EqualFold (\<lambda>s t. s = t) (name (parseLine ''Ubuntu Running'')) ''ubuntu''
   \<and> firstMatch (\<lambda>s t. s = t) ''ubuntu'' [''Ubuntu Running'', ''ubuntu Stopped 2'', '''']
       = firstMatch (\<lambda>s t. s = t) ''ubuntu''
           (filter (\<lambda>d. \<not> malformed d) [''Ubuntu Running'', ''ubuntu Stopped 2'', ''''])
   \<and> firstMatch (\<lambda>s t. s = t) [] [''ubuntu Stopped 2'', '''']
       = Some \<lparr>name = [], state = [], version = []\<rparr>
   \<and> distroCheck demoEnv demoFlags [] demoSys =
        Some ((False, Some (busyError [])), demoSys\<lparr>issued := [(''wsl'', [''-l'', ''-v''])]\<rparr>)"
proof -
  have m1: "malformed ''Ubuntu Running''"
    by (simp add: malformed_def Fields_def hasPrefix_def spaceWidth_def asciiSpace_def endField_def)
  have m2: "malformed ''''"
    by (simp add: malformed_def Fields_def endField_def)
  have sp: "drop 1 (Split listingRunning crlf)
      = [''* Ubuntu  Running  2'', ''  kali-linux  Stopped  2'', []]"
    by (simp add: listingRunning_def crlf_def Split_def hasPrefix_def)
  have ex: "list_ex malformed (drop 1 (Split (decodeText (bomLE @ wide listingRunning)) crlf))"
    unfolding decode_listingRunning sp using m2 by simp
  have t: "\<not> opt_term demoFlags" by (simp add: demoFlags_def)
  note th = malformed_line_matches_only_empty_target
  have a: "parseLine ''Ubuntu Running'' = \<lparr>name = [], state = [], version = []\<rparr>"
    using th [of "''Ubuntu Running''", THEN conjunct1] m1 by blast
  have b: "\<not> EqualFold (\<lambda>s t. s = t) (name (parseLine ''Ubuntu Running'')) ''ubuntu''"
    using th [of "''Ubuntu Running''" "\<lambda>s t. s = t" "''ubuntu''", THEN conjunct1] m1 by simp
  have c: "firstMatch (\<lambda>s t. s = t) ''ubuntu'' [''Ubuntu Running'', ''ubuntu Stopped 2'', '''']
       = firstMatch (\<lambda>s t. s = t) ''ubuntu''
           (filter (\<lambda>d. \<not> malformed d) [''Ubuntu Running'', ''ubuntu Stopped 2'', ''''])"
    using th [of _ "\<lambda>s t. s = t" "''ubuntu''" "[''Ubuntu Running'', ''ubuntu Stopped 2'', '''']",
          THEN conjunct2, THEN conjunct1] by blast
  have d: "firstMatch (\<lambda>s t. s = t) [] [''ubuntu Stopped 2'', ''''] = Some \<lparr>name = [], state = [], version = []\<rparr>"
    using th [of _ "\<lambda>s t. s = t" _ "[''ubuntu Stopped 2'', '''']",
          THEN conjunct2, THEN conjunct2, THEN conjunct1] m2 by simp
  have e: "distroCheck demoEnv demoFlags [] demoSys =
        Some ((False, Some (busyError [])), demoSys\<lparr>issued := [(''wsl'', [''-l'', ''-v''])]\<rparr>)"
    using th [of _ _ _ _ demoEnv demoSys "bomLE @ wide listingRunning" False Map.empty demoFlags,
          THEN conjunct2, THEN conjunct2, THEN conjunct2] demo_list ex t
    unfolding demoSys_listed by blast
  show ?thesis using m1 a b c d e by blast
qed

subsection \<open>The Text Decoder\<close>

lemma decodeText_after_bomLE: "decodeText (bomLE @ s) = utf16Decode LittleEndian s"
  by (simp add: decodeText_def hasPrefix_def bomLE_def)

text \<open>
  C7, as amended. For every byte sequence \<open>s\<close> that does not itself start with one of the
  three marks the decoder looks for (FF FE, FE FF and the UTF-8 mark EF BB BF), decoding
  the little-endian mark followed by \<open>s\<close> gives the same text as decoding \<open>s\<close> alone,
  namely the UTF-16 little-endian decoding of \<open>s\<close>.
\<close>

theorem bom_transparency:
  assumes "\<not> hasPrefix s bomLE" and "\<not> hasPrefix s bomBE" and "\<not> hasPrefix s bomUTF8"
  shows "decodeText (bomLE @ s) = decodeText s \<and> decodeText s = utf16Decode LittleEndian s"
  using assms by (simp add: decodeText_after_bomLE) (simp add: decodeText_def)

theorem bom_transparency_witness:
  "decodeText (bomLE @ wide ''Ubuntu'') = decodeText (wide ''Ubuntu'')
   \<and> decodeText (wide ''Ubuntu'') = ''Ubuntu''"
proof -
  have n: "\<not> hasPrefix (wide ''Ubuntu'') bomLE" "\<not> hasPrefix (wide ''Ubuntu'') bomBE"
    "\<not> hasPrefix (wide ''Ubuntu'') bomUTF8"
    by (simp_all add: hasPrefix_def wide_def bomLE_def bomBE_def bomUTF8_def)
  have d: "utf16Decode LittleEndian (wide ''Ubuntu'') = ''Ubuntu''"
    by (simp add: wide_def unit16_def encodeRune_def isSurrogate_def char_of_eq_iff)
  from bom_transparency [OF n] d show ?thesis by simp
qed

text \<open>
  C7 as stated fails: the four bytes EF BB BF 00 are the two little-endian code units
  U+BBEF and U+00BF. Behind a little-endian mark they are decoded as those two
  characters; alone they start with the UTF-8 mark, which the decoder strips before it
  passes the rest (the byte 00) through unchanged.
\<close>

theorem bom_transparency_counterexample:
  "decodeText (bomLE @ [CHR 0xEF, CHR 0xBB, CHR 0xBF, CHR 0x00])
     = [CHR 0xEB, CHR 0xAF, CHR 0xAF, CHR 0xC2, CHR 0xBF]
   \<and> decodeText [CHR 0xEF, CHR 0xBB, CHR 0xBF, CHR 0x00] = [CHR 0x00]
   \<and> decodeText (bomLE @ [CHR 0xEF, CHR 0xBB, CHR 0xBF, CHR 0x00])
     \<noteq> decodeText [CHR 0xEF, CHR 0xBB, CHR 0xBF, CHR 0x00]"
  by (simp add: decodeText_def hasPrefix_def bomLE_def bomBE_def bomUTF8_def unit16_def
      encodeRune_def isSurrogate_def char_of_eq_iff)

lemma hasPrefix_length: "hasPrefix s p \<Longrightarrow> length p \<le> length s"
proof -
  assume "hasPrefix s p"
  then have "length (take (length p) s) = length p" by (simp add: hasPrefix_def)
  then show ?thesis by simp
qed

lemma encodeRune_runeError: "encodeRune runeError = [CHR 0xEF, CHR 0xBF, CHR 0xBD]"
  by (simp add: encodeRune_def runeError_def isSurrogate_def char_of_eq_iff)

lemma utf16Decode_pair:
  "isSurrogate (unit16 e b0 b1) \<and> 0xDC00 \<le> unit16 e b2 b3 \<and> unit16 e b2 b3 \<le> 0xDFFF \<Longrightarrow>
   utf16Decode e (b0 # b1 # b2 # b3 # rest)
     = encodeRune (decodeRune16 (unit16 e b0 b1) (unit16 e b2 b3)) @ utf16Decode e rest"
  by (simp only: utf16Decode.simps(1) Let_def if_True simp_thms)

lemma utf16Decode_single:
  "\<not> (isSurrogate (unit16 e b0 b1) \<and> 0xDC00 \<le> unit16 e b2 b3 \<and> unit16 e b2 b3 \<le> 0xDFFF) \<Longrightarrow>
   utf16Decode e (b0 # b1 # b2 # b3 # rest)
     = encodeRune (unit16 e b0 b1) @ utf16Decode e (b2 # b3 # rest)"
  by (simp only: utf16Decode.simps(1) Let_def if_False)

lemma ends_append: "\<exists>t. ys = t @ zs \<Longrightarrow> \<exists>t. xs @ ys = t @ zs"
  by (metis append_assoc)

lemma utf16Decode_odd:
  "odd (length s) \<Longrightarrow> \<exists>t. utf16Decode e s = t @ [CHR 0xEF, CHR 0xBF, CHR 0xBD]"
proof (induct e s rule: utf16Decode.induct)
  case (1 e b0 b1 b2 b3 rest)
  from 1(3) have o: "odd (length rest)" "odd (length (b2 # b3 # rest))" by simp_all
  show ?case
  proof (cases "isSurrogate (unit16 e b0 b1) \<and> 0xDC00 \<le> unit16 e b2 b3 \<and> unit16 e b2 b3 \<le> 0xDFFF")
    case True
    have "\<exists>t. utf16Decode e rest = t @ [CHR 0xEF, CHR 0xBF, CHR 0xBD]"
      by (rule 1(1)[OF refl refl True o(1)])
    then show ?thesis
      unfolding utf16Decode_pair[OF True] by (rule ends_append)
  next
    case False
    have "\<exists>t. utf16Decode e (b2 # b3 # rest) = t @ [CHR 0xEF, CHR 0xBF, CHR 0xBD]"
      by (rule 1(2)[OF refl refl False o(2)])
    then show ?thesis
      unfolding utf16Decode_single[OF False] by (rule ends_append)
  qed
next
  case "2_1"
  then show ?case by (simp del: utf16Decode.simps)
next
  case "2_2"
  show ?case
    by (simp only: utf16Decode.simps encodeRune_runeError) (rule exI, rule refl)
next
  case (3 e b)
  have "utf16Decode e [b] = [] @ [CHR 0xEF, CHR 0xBF, CHR 0xBD]"
    by (simp only: utf16Decode.simps encodeRune_runeError append_Nil)
  then show ?case by (rule exI[of _ "[]"])
next
  case (4 e)
  then show ?case by (simp del: utf16Decode.simps)
qed

lemma encodeRune_surrogate: "isSurrogate r \<Longrightarrow> encodeRune r = [CHR 0xEF, CHR 0xBF, CHR 0xBD]"
  by (simp add: encodeRune_def isSurrogate_def)

lemma utf16Decode_lone_surrogate:
  assumes "isSurrogate (unit16 e b0 b1)"
    and "\<not> (\<exists>b2 b3 rest'. rest = b2 # b3 # rest' \<and>
              0xDC00 \<le> unit16 e b2 b3 \<and> unit16 e b2 b3 \<le> 0xDFFF)"
  shows "utf16Decode e (b0 # b1 # rest) = [CHR 0xEF, CHR 0xBF, CHR 0xBD] @ utf16Decode e rest"
proof (cases rest)
  case Nil
  then show ?thesis
    by (simp only: utf16Decode.simps encodeRune_surrogate[OF assms(1)])
next
  case (Cons b2 r1)
  show ?thesis
  proof (cases r1)
    case Nil
    then show ?thesis unfolding Cons
      by (simp only: utf16Decode.simps encodeRune_surrogate[OF assms(1)])
  next
    case (Cons b3 rest')
    with \<open>rest = b2 # r1\<close> have r: "rest = b2 # b3 # rest'" by simp
    with assms(2) have
      "\<not> (isSurrogate (unit16 e b0 b1) \<and> 0xDC00 \<le> unit16 e b2 b3 \<and> unit16 e b2 b3 \<le> 0xDFFF)"
      by blast
    from utf16Decode_single[OF this] show ?thesis
      unfolding r by (simp only: encodeRune_surrogate[OF assms(1)])
  qed
qed

lemma surrogate_start_has_no_mark:
  assumes "isSurrogate (unit16 LittleEndian b0 b1)"
  shows "decodeText (b0 # b1 # rest) = utf16Decode LittleEndian (b0 # b1 # rest)"
proof -
  have "\<not> hasPrefix (b0 # b1 # rest) bomLE"
    using assms by (auto simp: hasPrefix_def bomLE_def unit16_def isSurrogate_def)
  moreover have "\<not> hasPrefix (b0 # b1 # rest) bomBE"
    using assms by (auto simp: hasPrefix_def bomBE_def unit16_def isSurrogate_def)
  moreover have "\<not> hasPrefix (b0 # b1 # rest) bomUTF8"
    using assms by (cases rest) (auto simp: hasPrefix_def bomUTF8_def unit16_def isSurrogate_def)
  ultimately show ?thesis by (simp only: decodeText_def if_False)
qed

lemma utf8_mark_passes_through: "hasPrefix raw bomUTF8 \<Longrightarrow> decodeText raw = drop 3 raw"
proof -
  assume "hasPrefix raw bomUTF8"
  then obtain post where "raw = bomUTF8 @ post" unfolding hasPrefix_iff ..
  then show ?thesis
    by (simp add: decodeText_def hasPrefix_def bomLE_def bomBE_def bomUTF8_def)
qed

text \<open>
  C8, as amended. The Text Decoder has no error result: whatever bytes the host tool
  prints before it exits with status zero, well-formed or not, \<^verbatim>\<open>wslCmd\<close> returns the
  decoded text and a nil error. Malformed UTF-16 input is replaced, not reported: an
  input of odd length that does not start with the UTF-8 mark is decoded to a text that
  ends with U+FFFD (the bytes EF BF BD), and an input whose first little-endian code unit
  is a surrogate that is not followed by a code unit in DC00 .. DFFF is decoded to U+FFFD
  followed by the little-endian decoding of what comes after that unit. An input that
  starts with the UTF-8 mark EF BB BF is returned as it is after the mark, with nothing
  replaced.
\<close>

theorem decoder_replaces_malformed_input:
  "(exec env wsl (Split flgs '' '') (world s) (files s) = (Exits0 raw, w', fs') \<longrightarrow>
      fst (wslCmd env flgs s) = (decodeText raw, None))
   \<and> (odd (length raw) \<and> \<not> hasPrefix raw bomUTF8 \<longrightarrow>
      (\<exists>t. decodeText raw = t @ [CHR 0xEF, CHR 0xBF, CHR 0xBD]))
   \<and> (isSurrogate (unit16 LittleEndian b0 b1) \<and>
       \<not> (\<exists>b2 b3 rest'. rest = b2 # b3 # rest' \<and>
              0xDC00 \<le> unit16 LittleEndian b2 b3 \<and> unit16 LittleEndian b2 b3 \<le> 0xDFFF) \<longrightarrow>
      decodeText (b0 # b1 # rest) = [CHR 0xEF, CHR 0xBF, CHR 0xBD] @ utf16Decode LittleEndian rest)
   \<and> (hasPrefix raw bomUTF8 \<longrightarrow> decodeText raw = drop 3 raw)"
proof (intro conjI impI)
  assume "exec env wsl (Split flgs '' '') (world s) (files s) = (Exits0 raw, w', fs')"
  then show "fst (wslCmd env flgs s) = (decodeText raw, None)"
    by (simp add: wslCmd_Exits0)
next
  assume a: "odd (length raw) \<and> \<not> hasPrefix raw bomUTF8"
  have d: "odd (length (drop 2 raw))" if "hasPrefix raw p" "length p = 2" for p
    using a hasPrefix_length[OF that(1)] that(2) by simp
  consider (le) "hasPrefix raw bomLE"
    | (be) "\<not> hasPrefix raw bomLE" "hasPrefix raw bomBE"
    | (no) "\<not> hasPrefix raw bomLE" "\<not> hasPrefix raw bomBE"
    by blast
  then show "\<exists>t. decodeText raw = t @ [CHR 0xEF, CHR 0xBF, CHR 0xBD]"
  proof cases
    case le
    then have "decodeText raw = utf16Decode LittleEndian (drop 2 raw)"
      by (simp add: decodeText_def)
    moreover have "odd (length (drop 2 raw))" using d[OF le] by (simp add: bomLE_def)
    ultimately show ?thesis using utf16Decode_odd by simp
  next
    case be
    then have "decodeText raw = utf16Decode BigEndian (drop 2 raw)"
      by (simp add: decodeText_def)
    moreover have "odd (length (drop 2 raw))" using d[OF be(2)] by (simp add: bomBE_def)
    ultimately show ?thesis using utf16Decode_odd by simp
  next
    case no
    then have "decodeText raw = utf16Decode LittleEndian raw"
      using a by (simp add: decodeText_def)
    then show ?thesis using a utf16Decode_odd by simp
  qed
next
  assume a: "isSurrogate (unit16 LittleEndian b0 b1) \<and>
       \<not> (\<exists>b2 b3 rest'. rest = b2 # b3 # rest' \<and>
              0xDC00 \<le> unit16 LittleEndian b2 b3 \<and> unit16 LittleEndian b2 b3 \<le> 0xDFFF)"
  then have "decodeText (b0 # b1 # rest) = utf16Decode LittleEndian (b0 # b1 # rest)"
    by (simp only: surrogate_start_has_no_mark)
  also have "\<dots> = [CHR 0xEF, CHR 0xBF, CHR 0xBD] @ utf16Decode LittleEndian rest"
    using a by (intro utf16Decode_lone_surrogate) blast+
  finally show "decodeText (b0 # b1 # rest)
      = [CHR 0xEF, CHR 0xBF, CHR 0xBD] @ utf16Decode LittleEndian rest" .
next
  assume "hasPrefix raw bomUTF8"
  then show "decodeText raw = drop 3 raw" by (rule utf8_mark_passes_through)
qed

theorem decoder_replaces_malformed_input_witness:
  "fst (wslCmd (demoEnv\<lparr>exec := constExec (Exits0 [CHR 0x41, CHR 0x00, CHR 0x42])\<rparr>) wslList demoSys)
     = (decodeText [CHR 0x41, CHR 0x00, CHR 0x42], None)
   \<and> (\<exists>t. decodeText [CHR 0x41, CHR 0x00, CHR 0x42] = t @ [CHR 0xEF, CHR 0xBF, CHR 0xBD])
   \<and> decodeText [CHR 0x00, CHR 0xD8, CHR 0x41, CHR 0x00]
     = [CHR 0xEF, CHR 0xBF, CHR 0xBD] @ utf16Decode LittleEndian [CHR 0x41, CHR 0x00]
   \<and> decodeText [CHR 0xEF, CHR 0xBB, CHR 0xBF, CHR 0xFF] = [CHR 0xFF]"
proof -
  let ?env = "demoEnv\<lparr>exec := constExec (Exits0 [CHR 0x41, CHR 0x00, CHR 0x42])\<rparr>"
  have x: "exec ?env wsl (Split wslList '' '') (world demoSys) (files demoSys)
       = (Exits0 [CHR 0x41, CHR 0x00, CHR 0x42], world demoSys, files demoSys)"
    by (simp add: constExec_def)
  have o: "odd (length [CHR 0x41, CHR 0x00, CHR 0x42]) \<and> \<not> hasPrefix [CHR 0x41, CHR 0x00, CHR 0x42] bomUTF8"
    by (simp add: hasPrefix_def bomUTF8_def)
  have g: "isSurrogate (unit16 LittleEndian (CHR 0x00) (CHR 0xD8)) \<and>
       \<not> (\<exists>b2 b3 rest'. [CHR 0x41, CHR 0x00] = b2 # b3 # rest' \<and>
              0xDC00 \<le> unit16 LittleEndian b2 b3 \<and> unit16 LittleEndian b2 b3 \<le> 0xDFFF)"
    by (simp add: isSurrogate_def unit16_def)
  have m: "hasPrefix [CHR 0xEF, CHR 0xBB, CHR 0xBF, CHR 0xFF] bomUTF8"
    by (simp add: hasPrefix_def bomUTF8_def)
  note th = decoder_replaces_malformed_input
    [where env = ?env and flgs = wslList and s = demoSys
       and raw = "[CHR 0x41, CHR 0x00, CHR 0x42]" and ?w' = "world demoSys" and ?fs' = "files demoSys"]
  note tg = decoder_replaces_malformed_input
    [where ?b0.0 = "CHR 0x00" and ?b1.0 = "CHR 0xD8" and rest = "[CHR 0x41, CHR 0x00]"]
  note tm = decoder_replaces_malformed_input
    [where raw = "[CHR 0xEF, CHR 0xBB, CHR 0xBF, CHR 0xFF]"]
  have a: "fst (wslCmd ?env wslList demoSys) = (decodeText [CHR 0x41, CHR 0x00, CHR 0x42], None)"
    using th [THEN conjunct1] x by blast
  have b: "\<exists>t. decodeText [CHR 0x41, CHR 0x00, CHR 0x42] = t @ [CHR 0xEF, CHR 0xBF, CHR 0xBD]"
    using th [THEN conjunct2, THEN conjunct1] o by blast
  have c: "decodeText [CHR 0x00, CHR 0xD8, CHR 0x41, CHR 0x00]
     = [CHR 0xEF, CHR 0xBF, CHR 0xBD] @ utf16Decode LittleEndian [CHR 0x41, CHR 0x00]"
    using tg [THEN conjunct2, THEN conjunct2, THEN conjunct1] g by blast
  have d: "decodeText [CHR 0xEF, CHR 0xBB, CHR 0xBF, CHR 0xFF] = [CHR 0xFF]"
    using tm [THEN conjunct2, THEN conjunct2, THEN conjunct2] m by simp
  show ?thesis using a b c d by blast
qed

text \<open>
  C8 as stated fails: for an output of three bytes (odd length) and for an output that is
  a lone surrogate, \<^verbatim>\<open>wslCmd\<close> returns a text with U+FFFD in it and no error.
\<close>

theorem decoding_error_counterexample:
  "fst (wslCmd (demoEnv\<lparr>exec := constExec (Exits0 [CHR 0x41, CHR 0x00, CHR 0x42])\<rparr>) wslList demoSys)
     = ([CHR 0x41, CHR 0xEF, CHR 0xBF, CHR 0xBD], None)
   \<and> fst (wslCmd (demoEnv\<lparr>exec := constExec (Exits0 [CHR 0x00, CHR 0xD8])\<rparr>) wslList demoSys)
     = ([CHR 0xEF, CHR 0xBF, CHR 0xBD], None)"
  by (simp add: wslCmd_def runCommand_def constExec_def decodeText_def hasPrefix_def bomLE_def
      bomBE_def bomUTF8_def unit16_def encodeRune_def isSurrogate_def runeError_def char_of_eq_iff)

subsection \<open>The failure path of the host tool\<close>

text \<open>
  C9. The bytes \<^verbatim>\<open>wslCmd\<close> returns are the decoded output only when the process exited
  with status zero; when \<^verbatim>\<open>cmd.Wait\<close> fails they are the output as it was read, and
  on every other failure there are none. So when the export command exits with a
  non-zero status, \<^verbatim>\<open>wslExport\<close> returns that error and the line it logs on its failure
  path carries the undecoded bytes.
\<close>

theorem failure_path_logs_raw_output:
  "fst (fst (wslCmd env flgs s)) =
     (case fst (exec env wsl (Split flgs '' '') (world s) (files s)) of
        Exits0 raw \<Rightarrow> decodeText raw
      | WaitFails raw e \<Rightarrow> raw
      | PipeFails e \<Rightarrow> []
      | StartFails e \<Rightarrow> []
      | ReadFails e \<Rightarrow> [])
   \<and> (exec env wsl (Split flgs '' '') (world s) (files s) = (WaitFails raw e, w', fs') \<longrightarrow>
        wslCmd env flgs s =
          ((raw, Some e),
           s\<lparr>world := w', files := fs', issued := issued s @ [(wsl, Split flgs '' '')]\<rparr>))
   \<and> (exec env wsl
          (Split (exportCmd distro (if format = ''vhdx'' then '' --vhd'' else '''') ofile) '' '')
          (world s) (files s) = (WaitFails raw e, w', fs') \<longrightarrow>
        wslExport env distro format ofile s =
          (Some e,
           s\<lparr>world := w', files := fs',
             issued := issued s @
               [(wsl, Split (exportCmd distro (if format = ''vhdx'' then '' --vhd'' else '''') ofile) '' '')],
             logged := logged s @ [(exportingMsg, [distro, ofile, format]), (failedMsg, [raw])]\<rparr>))"
proof (intro conjI impI)
  show "fst (fst (wslCmd env flgs s)) =
     (case fst (exec env wsl (Split flgs '' '') (world s) (files s)) of
        Exits0 raw \<Rightarrow> decodeText raw
      | WaitFails raw e \<Rightarrow> raw
      | PipeFails e \<Rightarrow> []
      | StartFails e \<Rightarrow> []
      | ReadFails e \<Rightarrow> [])"
    by (simp add: wslCmd_def runCommand_def split: prod.splits outcome.splits)
next
  assume "exec env wsl (Split flgs '' '') (world s) (files s) = (WaitFails raw e, w', fs')"
  then show "wslCmd env flgs s =
          ((raw, Some e),
           s\<lparr>world := w', files := fs', issued := issued s @ [(wsl, Split flgs '' '')]\<rparr>)"
    by (simp add: wslCmd_def runCommand_def)
next
  let ?cmd = "exportCmd distro (if format = ''vhdx'' then '' --vhd'' else '''') ofile"
  assume "exec env wsl (Split ?cmd '' '') (world s) (files s) = (WaitFails raw e, w', fs')"
  then have "wslCmd env ?cmd (logPrintf exportingMsg [distro, ofile, format] s) =
      ((raw, Some e),
       (logPrintf exportingMsg [distro, ofile, format] s)
         \<lparr>world := w', files := fs',
          issued := issued s @ [(wsl, Split ?cmd '' '')]\<rparr>)"
    by (simp add: wslCmd_def runCommand_def logPrintf_def)
  then show "wslExport env distro format ofile s =
          (Some e,
           s\<lparr>world := w', files := fs',
             issued := issued s @ [(wsl, Split ?cmd '' '')],
             logged := logged s @ [(exportingMsg, [distro, ofile, format]), (failedMsg, [raw])]\<rparr>)"
    by (simp add: wslExport_def Let_def logPrintf_def)
qed

theorem failure_path_logs_raw_output_witness:
  "wslExport (demoEnv\<lparr>exec := constExec (WaitFails (wide ''Error'') (OSError ''exit status 1''))\<rparr>)
     ''kali-linux'' ''tar'' ''backup.tar'' demoSys =
     (Some (OSError ''exit status 1''),
      demoSys\<lparr>issued := [(''wsl'', [''--export'', ''kali-linux'', ''backup.tar''])],
              logged := [(exportingMsg, [''kali-linux'', ''backup.tar'', ''tar'']),
                         (failedMsg, [wide ''Error''])]\<rparr>)"
proof -
  let ?env = "demoEnv\<lparr>exec := constExec (WaitFails (wide ''Error'') (OSError ''exit status 1''))\<rparr>"
  let ?cmd = "exportCmd ''kali-linux'' (if ''tar'' = ''vhdx'' then '' --vhd'' else '''') ''backup.tar''"
  have x: "exec ?env wsl (Split ?cmd '' '') (world demoSys) (files demoSys)
      = (WaitFails (wide ''Error'') (OSError ''exit status 1''), False, Map.empty)"
    by (simp add: constExec_def demoSys_def)
  have sp: "Split ?cmd '' '' = [''--export'', ''kali-linux'', ''backup.tar'']"
    by (simp add: exportCmd_def Split_def hasPrefix_def)
  from failure_path_logs_raw_output [where env = ?env and s = demoSys and distro = "''kali-linux''"
        and format = "''tar''" and ofile = "''backup.tar''",
      THEN conjunct2, THEN conjunct2, rule_format, OF x]
  show ?thesis unfolding sp by (simp add: demoSys_def wsl_def)
qed

subsection \<open>Native filesystem compression\<close>

lemma Contains_iff: "Contains s sub \<longleftrightarrow> (\<exists>pre post. s = pre @ sub @ post)"
proof (induction s)
  case Nil
  then show ?case by simp
next
  case (Cons c cs)
  show ?case
  proof
    assume "Contains (c # cs) sub"
    then consider "hasPrefix (c # cs) sub" | "Contains cs sub" by auto
    then show "\<exists>pre post. c # cs = pre @ sub @ post"
    proof cases
      case 1
      then obtain post where "c # cs = sub @ post" unfolding hasPrefix_iff ..
      then have "c # cs = [] @ sub @ post" by simp
      then show ?thesis by blast
    next
      case 2
      then obtain pre post where "cs = pre @ sub @ post" using Cons.IH by blast
      then have "c # cs = (c # pre) @ sub @ post" by simp
      then show ?thesis by blast
    qed
  next
    assume "\<exists>pre post. c # cs = pre @ sub @ post"
    then obtain pre post where e: "c # cs = pre @ sub @ post" by blast
    show "Contains (c # cs) sub"
    proof (cases pre)
      case Nil
      then have "hasPrefix (c # cs) sub" using e unfolding hasPrefix_iff by auto
      then show ?thesis by simp
    next
      case (Cons a pre')
      then have "cs = pre' @ sub @ post" using e by simp
      then have "Contains cs sub" using Cons.IH by blast
      then show ?thesis by simp
    qed
  qed
qed

text \<open>
  C6, as amended. When the compression utility is started, its output is read and it
  exits with status zero, \<^verbatim>\<open>compactFile\<close> returns success exactly when the output
  contains the phrase \<^verbatim>\<open>1 files within 1 directories were compressed\<close>, and otherwise
  the error \<^verbatim>\<open>compact failed:\<close> followed by the raw output. When the utility cannot be
  started, its output cannot be read or it exits with a non-zero status,
  \<^verbatim>\<open>compactFile\<close> returns the error of that step, whatever the output holds.
\<close>

theorem compactFile_result:
  "fst (compactFile env fn s) =
     (case fst (exec env compactexe [''/c'', fn] (world s) (files s)) of
        Exits0 result \<Rightarrow>
          if (\<exists>pre post. result = pre @ ''1 files within 1 directories were compressed'' @ post)
          then None
          else Some (Errorf (''compact failed: '' @ result))
      | WaitFails result e \<Rightarrow> Some e
      | PipeFails e \<Rightarrow> Some e
      | StartFails e \<Rightarrow> Some e
      | ReadFails e \<Rightarrow> Some e)"
proof -
  have c: "Contains result compactOK
      \<longleftrightarrow> (\<exists>pre post. result = pre @ ''1 files within 1 directories were compressed'' @ post)"
    for result
    unfolding Contains_iff compactOK_def ..
  show ?thesis
    unfolding c [symmetric]
    by (simp add: compactFile_def runCommand_def split: prod.splits outcome.splits)
qed

theorem compactFile_result_witness:
  "fst (compactFile (demoEnv\<lparr>exec := constExec (Exits0 '' 1 files within 1 directories were compressed.'')\<rparr>)
          ''backup.tar'' demoSys) = None
   \<and> fst (compactFile (demoEnv\<lparr>exec := constExec (Exits0 ''error'')\<rparr>) ''backup.tar'' demoSys)
       = Some (Errorf ''compact failed: error'')
   \<and> fst (compactFile (demoEnv\<lparr>exec := constExec (Exits0 [])\<rparr>) ''backup.tar'' demoSys)
       = Some (Errorf ''compact failed: '')"
proof -
  have y: "\<exists>pre post. '' 1 files within 1 directories were compressed.''
      = pre @ ''1 files within 1 directories were compressed'' @ post"
    by (rule exI[of _ "'' ''"], rule exI[of _ "''.''"]) simp
  have n1: "\<not> (\<exists>pre post. ''error'' = pre @ ''1 files within 1 directories were compressed'' @ post)"
  proof
    assume "\<exists>pre post. ''error'' = pre @ ''1 files within 1 directories were compressed'' @ post"
    then obtain pre post where "''error'' = pre @ ''1 files within 1 directories were compressed'' @ post"
      by blast
    then have "length ''error'' = length (pre @ ''1 files within 1 directories were compressed'' @ post)"
      by (rule arg_cong)
    then show False by simp
  qed
  have n2: "\<not> (\<exists>pre post. [] = pre @ ''1 files within 1 directories were compressed'' @ post)"
    by simp
  note th = compactFile_result [where fn = "''backup.tar''" and s = demoSys]
  have a: "fst (compactFile (demoEnv\<lparr>exec := constExec (Exits0 '' 1 files within 1 directories were compressed.'')\<rparr>)
          ''backup.tar'' demoSys) = None"
    unfolding th using y by (simp add: constExec_def del: append.simps)
  have b: "fst (compactFile (demoEnv\<lparr>exec := constExec (Exits0 ''error'')\<rparr>) ''backup.tar'' demoSys)
       = Some (Errorf ''compact failed: error'')"
    unfolding th using n1 by (simp add: constExec_def del: append.simps)
  have c: "fst (compactFile (demoEnv\<lparr>exec := constExec (Exits0 [])\<rparr>) ''backup.tar'' demoSys)
       = Some (Errorf ''compact failed: '')"
    unfolding th using n2 by (simp add: constExec_def)
  show ?thesis using a b c by blast
qed

text \<open>
  C6 as stated fails: when the utility prints the confirmation phrase and exits with a
  non-zero status, \<^verbatim>\<open>compactFile\<close> does not return success; and when it prints
  \<^verbatim>\<open>error\<close> and exits with a non-zero status, the error returned is that of the exit and
  does not carry the output.
\<close>

theorem compactFile_exit_status_counterexample:
  "Contains ''1 files within 1 directories were compressed'' compactOK
   \<and> fst (compactFile
          (demoEnv\<lparr>exec := constExec (WaitFails ''1 files within 1 directories were compressed''
                                       (OSError ''exit status 1''))\<rparr>)
          ''backup.tar'' demoSys) = Some (OSError ''exit status 1'')
   \<and> fst (compactFile
          (demoEnv\<lparr>exec := constExec (WaitFails ''error'' (OSError ''exit status 1''))\<rparr>)
          ''backup.tar'' demoSys) = Some (OSError ''exit status 1'')"
  by (simp add: compactFile_def runCommand_def constExec_def compactOK_def hasPrefix_def)

subsection \<open>The choice of compression\<close>

text \<open>
  C5. When both the ZIP option and the compact option are selected, \<^verbatim>\<open>main\<close> exits with
  status 1 after logging one line and nothing else: no command has been started (so no
  list, terminate or export command), and the host and the files are as they were. When
  the export format is one of the two supported ones the line is the message about the
  two conflicting options; otherwise the run has already been rejected for its format.
\<close>

theorem both_compressions_rejected:
  assumes "opt_outzip fl" and "opt_compact fl"
  shows "\<exists>line. main env fl s = Some (1, s\<lparr>logged := logged s @ [line]\<rparr>)
           \<and> issued (s\<lparr>logged := logged s @ [line]\<rparr>) = issued s
           \<and> files (s\<lparr>logged := logged s @ [line]\<rparr>) = files s
           \<and> world (s\<lparr>logged := logged s @ [line]\<rparr>) = world s
           \<and> (opt_outfmt fl = ''vhdx'' \<or> opt_outfmt fl = ''tar'' \<longrightarrow> line = (conflictMsg, []))"
  using assms by (auto simp: main_def fatal_def logPrintf_def)

theorem both_compressions_rejected_witness:
  "main demoEnv (demoFlags\<lparr>opt_outzip := True, opt_compact := True\<rparr>) demoSys
     = Some (1, demoSys\<lparr>logged := [(conflictMsg, [])]\<rparr>)"
proof -
  let ?fl = "demoFlags\<lparr>opt_outzip := True, opt_compact := True\<rparr>"
  have z: "opt_outzip ?fl" and c: "opt_compact ?fl" by simp_all
  have f: "opt_outfmt ?fl = ''vhdx'' \<or> opt_outfmt ?fl = ''tar''" by (simp add: demoFlags_def)
  from both_compressions_rejected [OF z c, of demoEnv demoSys] f
  have "main demoEnv ?fl demoSys = Some (1, demoSys\<lparr>logged := logged demoSys @ [(conflictMsg, [])]\<rparr>)"
    by blast
  then show ?thesis by (simp add: demoSys_def)
qed

subsection \<open>Archive compression\<close>

text \<open>
  Three facts about \<^verbatim>\<open>zipFile\<close>. When no file operation fails, the archive
  \<open>fn @ ''.zip''\<close> holds the one entry named \<open>fn\<close> with the bytes of the original, and
  the original is untouched. When reading the original fails after \<open>k\<close> bytes and nothing
  else fails, \<^verbatim>\<open>zipFile\<close> still returns no error, and the entry holds the first \<open>k\<close>
  bytes. Whenever \<^verbatim>\<open>zipFile\<close> does return an error, the original is as it was.
\<close>

lemma zipFile_no_faults:
  assumes "faults env = noFaults" and "files s fn = Some content"
  shows "zipFile env fn s =
           (None,
            s\<lparr>files := (files s)(fn @ ''.zip'' \<mapsto> zipData env [(fn, content)]),
              logged := logged s @ [(compressingMsg, [fn, fn @ ''.zip'']), (completedMsg, [])]\<rparr>)"
  using assms by (simp add: zipFile_def Let_def noFaults_def logPrintf_def)

lemma zipFile_read_failure:
  assumes "faults env = noFaults\<lparr>copyStops := Some k\<rparr>" and "files s fn = Some content"
  shows "zipFile env fn s =
           (None,
            s\<lparr>files := (files s)(fn @ ''.zip'' \<mapsto> zipData env [(fn, take k content)]),
              logged := logged s @ [(compressingMsg, [fn, fn @ ''.zip'']), (completedMsg, [])]\<rparr>)"
  using assms by (simp add: zipFile_def Let_def noFaults_def logPrintf_def)

lemma zipFile_error_keeps_original:
  assumes "zipFile env fn s = (Some err, s')"
  shows "files s' fn = files s fn"
  using assms
  by (auto simp: zipFile_def Let_def logPrintf_def split: option.splits sum.splits)

lemma distroCheck_ready:
  assumes "exec env wsl [''-l'', ''-v''] (world s) (files s) = (Exits0 raw, w', fs')"
    and "firstMatch (foldRest env) distro (drop 1 (Split (decodeText raw) crlf)) = Some nfo"
    and "state nfo = ''Stopped''"
  shows "distroCheck env fl distro s =
           Some ((True, None),
                 s\<lparr>world := w', files := fs', issued := issued s @ [(wsl, [''-l'', ''-v''])]\<rparr>)"
  using assms(2,3)
  by (subst distroCheck.simps) (simp add: wslCmd_list[OF assms(1)])


lemma firstMatch_kali:
  "firstMatch (foldRest demoEnv) ''kali-linux'' (drop 1 (Split listingRunning crlf))
     = Some \<lparr>name = ''kali-linux'', state = ''Stopped'', version = ''2''\<rparr>"
  using records_listingRunning
  by (simp add: firstMatch_find records_def foldRest_demoEnv asciiFoldEq_def)

lemma Split_export_demo:
  "Split (exportCmd ''kali-linux'' [] ''backup.tar'') '' '' = [''--export'', ''kali-linux'', ''backup.tar'']"
  by (simp add: exportCmd_def Split_def hasPrefix_def)

lemma decode_done: "decodeText (wide ''done'') = ''done''"
  by (simp add: decodeText_def hasPrefix_def bomLE_def bomBE_def bomUTF8_def wide_def unit16_def
      encodeRune_def isSurrogate_def char_of_eq_iff)

text \<open>
  C4 on a run whose read of the exported file fails. The guest is stopped, the export
  writes the four bytes \<^verbatim>\<open>DATA\<close> to \<^verbatim>\<open>backup.tar\<close>, and reading that file fails
  after two bytes while \<^verbatim>\<open>io.Copy\<close> streams it into the archive. \<^verbatim>\<open>zipFile\<close> drops
  the result of \<^verbatim>\<open>io.Copy\<close> and returns no error, so \<^verbatim>\<open>main\<close> exits with status 0
  after removing the original: the archive holds two of the four bytes and the original
  is gone.
\<close>

theorem read_failure_loses_original:
  "\<exists>s1 s2 s3 t.
     distroCheck readFailEnv zipFlags ''kali-linux'' demoSys = Some ((True, None), s1)
     \<and> wslExport readFailEnv ''kali-linux'' ''tar'' ''backup.tar'' s1 = (None, s2)
     \<and> files s2 ''backup.tar'' = Some ''DATA''
     \<and> zipFile readFailEnv ''backup.tar'' s2 = (None, s3)
     \<and> main readFailEnv zipFlags demoSys = Some (0, t)
     \<and> files t ''backup.tar'' = None
     \<and> files t ''backup.tar.zip'' = Some (zipData readFailEnv [(''backup.tar'', ''DA'')])"
proof -
  let ?list = "(''wsl'', [''-l'', ''-v''])"
  let ?export = "(''wsl'', [''--export'', ''kali-linux'', ''backup.tar''])"
  let ?s1 = "\<lparr>world = False, files = Map.empty, issued = [?list], logged = []\<rparr> :: bool sys"
  let ?s2 = "\<lparr>world = False, files = [''backup.tar'' \<mapsto> ''DATA''], issued = [?list, ?export],
              logged = [(exportingMsg, [''kali-linux'', ''backup.tar'', ''tar'']), (succeededMsg, [''done''])]\<rparr> :: bool sys"
  let ?s3 = "?s2\<lparr>files := (files ?s2)(''backup.tar'' @ ''.zip'' \<mapsto> zipData readFailEnv [(''backup.tar'', take 2 ''DATA'')]),
              logged := logged ?s2 @ [(compressingMsg, [''backup.tar'', ''backup.tar'' @ ''.zip'']), (completedMsg, [])]\<rparr>"
  let ?t = "?s3\<lparr>files := (files ?s3)(''backup.tar'' := None)\<rparr>"
  have e: "exec readFailEnv = demoExec" "foldRest readFailEnv = foldRest demoEnv"
    "faults readFailEnv = noFaults\<lparr>copyStops := Some 2\<rparr>"
    by (simp_all add: readFailEnv_def demoEnv_def)
  have l: "exec readFailEnv wsl [''-l'', ''-v''] (world demoSys) (files demoSys)
      = (Exits0 (bomLE @ wide listingRunning), False, Map.empty)"
    by (simp add: e demoExec_def demoSys_def wsl_def)
  have m: "firstMatch (foldRest readFailEnv) ''kali-linux''
        (drop 1 (Split (decodeText (bomLE @ wide listingRunning)) crlf))
      = Some \<lparr>name = ''kali-linux'', state = ''Stopped'', version = ''2''\<rparr>"
    unfolding decode_listingRunning e by (rule firstMatch_kali)
  have d: "distroCheck readFailEnv zipFlags ''kali-linux'' demoSys = Some ((True, None), ?s1)"
    using distroCheck_ready [OF l m] by (simp add: demoSys_def wsl_def)
  have x: "exec readFailEnv wsl (Split (exportCmd ''kali-linux'' [] ''backup.tar'') '' '')
        (world (logPrintf exportingMsg [''kali-linux'', ''backup.tar'', ''tar''] ?s1))
        (files (logPrintf exportingMsg [''kali-linux'', ''backup.tar'', ''tar''] ?s1))
      = (Exits0 (wide ''done''), False, [''backup.tar'' \<mapsto> ''DATA''])"
    unfolding Split_export_demo by (simp add: e demoExec_def wsl_def logPrintf_def)
  have w: "wslExport readFailEnv ''kali-linux'' ''tar'' ''backup.tar'' ?s1 = (None, ?s2)"
    using wslCmd_Exits0 [OF x]
    by (simp add: wslExport_def Let_def decode_done Split_export_demo logPrintf_def wsl_def)
  have z: "zipFile readFailEnv ''backup.tar'' ?s2 = (None, ?s3)"
    by (rule zipFile_read_failure [OF e(3)]) simp
  have fl: "opt_outfmt zipFlags = ''tar''" "opt_outzip zipFlags" "\<not> opt_compact zipFlags"
    "\<not> opt_keep zipFlags" "opt_distro zipFlags = ''kali-linux''" "opt_outfile zipFlags = ''backup.tar''"
    by (simp_all add: zipFlags_def demoFlags_def)
  have r: "osRemove readFailEnv ''backup.tar'' ?s3 = ?t"
    by (simp add: osRemove_def e noFaults_def)
  have mn: "main readFailEnv zipFlags demoSys = Some (0, ?t)"
    using d w z r by (simp add: main_def fl Let_def)
  have f2: "files ?s2 ''backup.tar'' = Some ''DATA''" by simp
  have ft: "files ?t ''backup.tar'' = None" by simp
  have fz: "files ?t ''backup.tar.zip'' = Some (zipData readFailEnv [(''backup.tar'', ''DA'')])" by simp
  from d w f2 z mn ft fz show ?thesis by blast
qed

end
